theory Spec2Isabelle
  imports Complex_Main
begin

section \<open>JavaScript strings\<close>

text \<open>
  A JavaScript string is a sequence of UTF-16 code units. ASCII text is written with
  \<open>u\<close>; code units outside ASCII are written as hexadecimal numerals.
\<close>

type_synonym jsstring = "nat list"

definition u :: "string \<Rightarrow> jsstring" where
  "u s = map of_char s"

text \<open>
  \<open>String.prototype.includes\<close>: the argument occurs as a contiguous run of code
  units of the receiver.
\<close>

fun js_startsWith :: "jsstring \<Rightarrow> jsstring \<Rightarrow> bool" where
  "js_startsWith s [] = True"
| "js_startsWith [] (c # t) = False"
| "js_startsWith (d # s) (c # t) = (d = c \<and> js_startsWith s t)"

fun js_includes :: "jsstring \<Rightarrow> jsstring \<Rightarrow> bool" where
  "js_includes [] t = (t = [])"
| "js_includes (d # s) t = (js_startsWith (d # s) t \<or> js_includes s t)"

text \<open>
  \<open>String.prototype.trim\<close> removes the WhiteSpace and LineTerminator code units of
  ECMAScript from both ends.
\<close>

definition js_isWhiteSpace :: "nat \<Rightarrow> bool" where
  "js_isWhiteSpace c =
     (c = 0x09 \<or> c = 0x0A \<or> c = 0x0B \<or> c = 0x0C \<or> c = 0x0D \<or> c = 0x20 \<or> c = 0xA0
      \<or> c = 0x1680 \<or> (0x2000 \<le> c \<and> c \<le> 0x200A) \<or> c = 0x2028 \<or> c = 0x2029
      \<or> c = 0x202F \<or> c = 0x205F \<or> c = 0x3000 \<or> c = 0xFEFF)"

definition js_trim :: "jsstring \<Rightarrow> jsstring" where
  "js_trim s = rev (dropWhile js_isWhiteSpace (rev (dropWhile js_isWhiteSpace s)))"

text \<open>
  \<open>String.prototype.toLowerCase\<close> is the Unicode case mapping of the JavaScript
  engine. The functions below take it as the parameter \<open>toLowerCase\<close>;
  \<open>asciiLowerCase\<close> is the instance used on concrete inputs, which agrees with it on
  strings whose upper-case letters are all ASCII.
\<close>

definition asciiLowerCase :: "jsstring \<Rightarrow> jsstring" where
  "asciiLowerCase s = map (\<lambda>c. if 0x41 \<le> c \<and> c \<le> 0x5A then c + 0x20 else c) s"

section \<open>Command dispatcher: executeCommand\<close>

text \<open>
  A JavaScript number is a real or NaN (rounding and the infinities are not modelled).
  \<open>videoControls\<close> is the object that \<open>useVideoPlayer\<close> returns: the fields that
  \<open>executeCommand\<close> reads are \<open>uri\<close>, \<open>player\<close> (only its truthiness is read)
  and \<open>volume\<close> (\<open>None\<close> is \<open>undefined\<close>).
\<close>

datatype jsnum = Num real | NaN

record controls =
  uri :: "jsstring option"
  player :: bool
  volume :: "jsnum option"

text \<open>The calls that \<open>executeCommand\<close> makes on \<open>videoControls\<close>.\<close>

datatype call =
    Play | Pause | Stop | Seek int | SetVolume jsnum | SetSpeed real
  | ToggleFullscreen | AddBookmark | ToggleFavorite

text \<open>The exception that an external call raised.\<close>

datatype thrown = Thrown call

text \<open>\<open>!videoControls.uri\<close>: \<open>undefined\<close> and the empty string are falsy.\<close>

definition uri_falsy :: "controls \<Rightarrow> bool" where
  "uri_falsy videoControls = (case uri videoControls of None \<Rightarrow> True | Some s \<Rightarrow> s = [])"

text \<open>\<open>videoControls.volume + d\<close>, \<open>Math.min(1, x)\<close> and \<open>Math.max(0, x)\<close>.\<close>

definition js_plus :: "jsnum option \<Rightarrow> real \<Rightarrow> jsnum" where
  "js_plus v d = (case v of Some (Num x) \<Rightarrow> Num (x + d) | _ \<Rightarrow> NaN)"

definition math_min :: "real \<Rightarrow> jsnum \<Rightarrow> jsnum" where
  "math_min a y = (case y of Num x \<Rightarrow> Num (min a x) | NaN \<Rightarrow> NaN)"

definition math_max :: "real \<Rightarrow> jsnum \<Rightarrow> jsnum" where
  "math_max a y = (case y of Num x \<Rightarrow> Num (max a x) | NaN \<Rightarrow> NaN)"

text \<open>\<open>videoControls.volume || 0\<close>: \<open>undefined\<close>, NaN and 0 are falsy.\<close>

definition volume_or_zero :: "jsnum option \<Rightarrow> real" where
  "volume_or_zero v = (case v of Some (Num x) \<Rightarrow> (if x = 0 then 0 else x) | _ \<Rightarrow> 0)"

text \<open>
  The \<open>switch (commandId)\<close> of \<open>executeCommand\<close>: the call of the matching case
  label, \<open>None\<close> for the \<open>default\<close> branch.
\<close>

definition commandCall :: "jsstring \<Rightarrow> controls \<Rightarrow> call option" where
  "commandCall commandId videoControls =
    (if commandId = u ''play'' then Some Play
     else if commandId = u ''pause'' then Some Pause
     else if commandId = u ''stop'' then Some Stop
     else if commandId = u ''forward10'' then Some (Seek 10)
     else if commandId = u ''forward20'' then Some (Seek 20)
     else if commandId = u ''forward30'' then Some (Seek 30)
     else if commandId = u ''backward10'' then Some (Seek (- 10))
     else if commandId = u ''backward20'' then Some (Seek (- 20))
     else if commandId = u ''backward30'' then Some (Seek (- 30))
     else if commandId = u ''volumeUp''
       then Some (SetVolume (math_min 1 (js_plus (volume videoControls) (1 / 10))))
     else if commandId = u ''volumeDown''
       then Some (SetVolume (math_max 0 (js_plus (volume videoControls) (- (1 / 10)))))
     else if commandId = u ''volumeMax'' then Some (SetVolume (Num 1))
     else if commandId = u ''mute'' then Some (SetVolume (Num 0))
     else if commandId = u ''unmute''
       then (let currentVolume = volume_or_zero (volume videoControls)
             in Some (SetVolume (Num (if currentVolume > 0 then currentVolume else 1))))
     else if commandId = u ''speed05'' then Some (SetSpeed (1 / 2))
     else if commandId = u ''speed1'' \<or> commandId = u ''speed10'' then Some (SetSpeed 1)
     else if commandId = u ''speed125'' then Some (SetSpeed (5 / 4))
     else if commandId = u ''speed15'' then Some (SetSpeed (3 / 2))
     else if commandId = u ''speed2'' then Some (SetSpeed 2)
     else if commandId = u ''fullscreen'' \<or> commandId = u ''exitFullscreen''
       then Some ToggleFullscreen
     else if commandId = u ''bookmark'' then Some AddBookmark
     else if commandId = u ''favorite'' then Some ToggleFavorite
     else None)"

text \<open>
  How an external call turns out: it returns (and a promise it returns is fulfilled),
  it throws, or it returns a promise that is rejected.
\<close>

datatype call_outcome = Returns | Throws | Rejects

text \<open>
  Every case of the \<open>switch\<close> awaits its call, except the case of \<open>fullscreen\<close> and
  \<open>exitFullscreen\<close>, which is the statement \<open>videoControls.toggleFullscreen();\<close>.
\<close>

definition awaited :: "call \<Rightarrow> bool" where
  "awaited c = (c \<noteq> ToggleFullscreen)"

text \<open>
  The body of the \<open>try\<close> block: the result, or the exception of the external call, and
  the calls made on \<open>videoControls\<close>. \<open>outcome c\<close> is how the call \<open>c\<close> turns out. A
  call that throws raises its exception in the block, and so does an awaited call whose
  promise is rejected. The promise of a call that is not awaited is dropped: when it is
  rejected, the block goes on to \<open>return true\<close> and the rejection stays unhandled.
\<close>

definition executeCommand_try ::
  "(call \<Rightarrow> call_outcome) \<Rightarrow> jsstring \<Rightarrow> controls \<Rightarrow> (thrown + bool) \<times> call list" where
  "executeCommand_try outcome commandId videoControls =
    (if uri_falsy videoControls then (Inr False, [])
     else if \<not> player videoControls then (Inr False, [])
     else (case commandCall commandId videoControls of
             None \<Rightarrow> (Inr False, [])
           | Some c \<Rightarrow>
               (case outcome c of
                  Returns \<Rightarrow> (Inr True, [c])
                | Throws \<Rightarrow> (Inl (Thrown c), [c])
                | Rejects \<Rightarrow>
                    (if awaited c then (Inl (Thrown c), [c]) else (Inr True, [c])))))"

text \<open>\<open>executeCommand\<close>: the \<open>catch\<close> block turns every exception into \<open>false\<close>.\<close>

definition executeCommand ::
  "(call \<Rightarrow> call_outcome) \<Rightarrow> jsstring \<Rightarrow> controls \<Rightarrow> bool \<times> call list" where
  "executeCommand outcome commandId videoControls =
    (case executeCommand_try outcome commandId videoControls of
       (Inl e, calls) \<Rightarrow> (False, calls)
     | (Inr r, calls) \<Rightarrow> (r, calls))"

text \<open>
  The failures of a call that end in the \<open>catch\<close> block: a throw, and the rejection of
  an awaited call.
\<close>

definition caught :: "(call \<Rightarrow> call_outcome) \<Rightarrow> call \<Rightarrow> bool" where
  "caught outcome c = (outcome c = Throws \<or> (outcome c = Rejects \<and> awaited c))"

section \<open>Command resolver: processVoiceCommand\<close>

text \<open>
  The built-in phrase table, as \<open>Object.entries(commands)\<close> lists it: the keys in
  their declared order (none is an array index), each with its trigger phrases in the
  order of the source: English, Chinese, Japanese, Spanish, French, German, Russian,
  Arabic and Korean phrases in one list.
\<close>

definition commands :: "(jsstring \<times> jsstring list) list" where
  "commands =
  [(u ''play'',
     [u ''play'',
      [0x64AD, 0x653E],
      [0x518D, 0x751F],
      u ''reproducir'',
      u ''jouer'',
      u ''spielen'',
      [0x0432, 0x043E, 0x0441, 0x043F, 0x0440, 0x043E, 0x0438, 0x0437, 0x0432, 0x0435, 0x0441, 0x0442, 0x0438],
      [0x062A, 0x0634, 0x063A, 0x064A, 0x0644],
      [0xC7AC, 0xC0DD],
      u ''start'']),
   (u ''pause'',
     [u ''pause'',
      [0x66AB, 0x505C],
      [0x4E00, 0x6642, 0x505C, 0x6B62],
      u ''pausar'',
      u ''pause'',
      u ''pausieren'',
      [0x043F, 0x0430, 0x0443, 0x0437, 0x0430],
      [0x0625, 0x064A, 0x0642, 0x0627, 0x0641] @ u '' '' @ [0x0645, 0x0624, 0x0642, 0x062A],
      [0xC77C, 0xC2DC, 0xC815, 0xC9C0]]),
   (u ''stop'',
     [u ''stop'',
      [0x505C, 0x6B62],
      [0x505C, 0x6B62],
      u ''parar'',
      u ''arr'' @ [0x00EA] @ u ''ter'',
      u ''stoppen'',
      [0x043E, 0x0441, 0x0442, 0x0430, 0x043D, 0x043E, 0x0432, 0x0438, 0x0442, 0x044C],
      [0x062A, 0x0648, 0x0642, 0x0641],
      [0xC815, 0xC9C0]]),
   (u ''forward10'',
     [u ''forward 10'',
      u ''skip 10'',
      u ''forward ten'',
      [0x5FEB, 0x8F49] @ u ''10'' @ [0x79D2],
      u ''10'' @ [0x79D2, 0x9032, 0x3080],
      u ''adelantar 10'',
      u ''avancer 10'',
      [0x0432, 0x043F, 0x0435, 0x0440, 0x0435, 0x0434] @ u '' 10'',
      [0x062A, 0x0642, 0x062F, 0x064A, 0x0645] @ u '' 10'',
      u ''10'' @ [0xCD08] @ u '' '' @ [0xC55E, 0xC73C, 0xB85C]]),
   (u ''forward20'',
     [u ''forward 20'',
      u ''skip 20'',
      u ''forward twenty'',
      [0x5FEB, 0x8F49] @ u ''20'' @ [0x79D2],
      u ''20'' @ [0x79D2, 0x9032, 0x3080],
      u ''adelantar 20'',
      u ''avancer 20'',
      [0x0432, 0x043F, 0x0435, 0x0440, 0x0435, 0x0434] @ u '' 20'',
      [0x062A, 0x0642, 0x062F, 0x064A, 0x0645] @ u '' 20'',
      u ''20'' @ [0xCD08] @ u '' '' @ [0xC55E, 0xC73C, 0xB85C]]),
   (u ''forward30'',
     [u ''forward 30'',
      u ''skip 30'',
      u ''forward thirty'',
      [0x5FEB, 0x8F49] @ u ''30'' @ [0x79D2],
      u ''30'' @ [0x79D2, 0x9032, 0x3080],
      u ''adelantar 30'',
      u ''avancer 30'',
      [0x0432, 0x043F, 0x0435, 0x0440, 0x0435, 0x0434] @ u '' 30'',
      [0x062A, 0x0642, 0x062F, 0x064A, 0x0645] @ u '' 30'',
      u ''30'' @ [0xCD08] @ u '' '' @ [0xC55E, 0xC73C, 0xB85C]]),
   (u ''backward10'',
     [u ''backward 10'',
      u ''back 10'',
      u ''rewind 10'',
      [0x5012, 0x8F49] @ u ''10'' @ [0x79D2],
      u ''10'' @ [0x79D2, 0x623B, 0x308B],
      u ''retroceder 10'',
      u ''reculer 10'',
      [0x043D, 0x0430, 0x0437, 0x0430, 0x0434] @ u '' 10'',
      [0x062A, 0x0631, 0x0627, 0x062C, 0x0639] @ u '' 10'',
      u ''10'' @ [0xCD08] @ u '' '' @ [0xB4A4, 0xB85C]]),
   (u ''backward20'',
     [u ''backward 20'',
      u ''back 20'',
      u ''rewind 20'',
      [0x5012, 0x8F49] @ u ''20'' @ [0x79D2],
      u ''20'' @ [0x79D2, 0x623B, 0x308B],
      u ''retroceder 20'',
      u ''reculer 20'',
      [0x043D, 0x0430, 0x0437, 0x0430, 0x0434] @ u '' 20'',
      [0x062A, 0x0631, 0x0627, 0x062C, 0x0639] @ u '' 20'',
      u ''20'' @ [0xCD08] @ u '' '' @ [0xB4A4, 0xB85C]]),
   (u ''backward30'',
     [u ''backward 30'',
      u ''back 30'',
      u ''rewind 30'',
      [0x5012, 0x8F49] @ u ''30'' @ [0x79D2],
      u ''30'' @ [0x79D2, 0x623B, 0x308B],
      u ''retroceder 30'',
      u ''reculer 30'',
      [0x043D, 0x0430, 0x0437, 0x0430, 0x0434] @ u '' 30'',
      [0x062A, 0x0631, 0x0627, 0x062C, 0x0639] @ u '' 30'',
      u ''30'' @ [0xCD08] @ u '' '' @ [0xB4A4, 0xB85C]]),
   (u ''volumeUp'',
     [u ''volume up'',
      u ''louder'',
      u ''increase volume'',
      [0x97F3, 0x91CF, 0x8ABF, 0x9AD8],
      [0x97F3, 0x91CF, 0x4E0A, 0x3052, 0x308B],
      u ''subir volumen'',
      u ''augmenter volume'',
      [0x0433, 0x0440, 0x043E, 0x043C, 0x0447, 0x0435],
      [0x0631, 0x0641, 0x0639] @ u '' '' @ [0x0627, 0x0644, 0x0635, 0x0648, 0x062A],
      [0xBCFC, 0xB968] @ u '' '' @ [0xC62C, 0xB9AC, 0xAE30]]),
   (u ''volumeDown'',
     [u ''volume down'',
      u ''quieter'',
      u ''decrease volume'',
      [0x97F3, 0x91CF, 0x8ABF, 0x4F4E],
      [0x97F3, 0x91CF, 0x4E0B, 0x3052, 0x308B],
      u ''bajar volumen'',
      u ''baisser volume'',
      [0x0442, 0x0438, 0x0448, 0x0435],
      [0x062E, 0x0641, 0x0636] @ u '' '' @ [0x0627, 0x0644, 0x0635, 0x0648, 0x062A],
      [0xBCFC, 0xB968] @ u '' '' @ [0xB0B4, 0xB9AC, 0xAE30]]),
   (u ''volumeMax'',
     [u ''max volume'',
      u ''volume max'',
      u ''maximum volume'',
      [0x97F3, 0x91CF, 0x6700, 0x5927],
      [0x6700, 0x5927, 0x97F3, 0x91CF],
      u ''volumen m'' @ [0x00E1] @ u ''ximo'',
      u ''volume maximum'',
      [0x043C, 0x0430, 0x043A, 0x0441, 0x0438, 0x043C, 0x0430, 0x043B, 0x044C, 0x043D, 0x0430, 0x044F] @ u '' '' @ [0x0433, 0x0440, 0x043E, 0x043C, 0x043A, 0x043E, 0x0441, 0x0442, 0x044C],
      [0x0623, 0x0642, 0x0635, 0x0649] @ u '' '' @ [0x0635, 0x0648, 0x062A],
      [0xCD5C, 0xB300] @ u '' '' @ [0xBCFC, 0xB968]]),
   (u ''mute'',
     [u ''mute'',
      [0x975C, 0x97F3],
      [0x30DF, 0x30E5, 0x30FC, 0x30C8],
      u ''silenciar'',
      u ''muet'',
      u ''stumm'',
      [0x0431, 0x0435, 0x0437] @ u '' '' @ [0x0437, 0x0432, 0x0443, 0x043A, 0x0430],
      [0x0643, 0x062A, 0x0645] @ u '' '' @ [0x0627, 0x0644, 0x0635, 0x0648, 0x062A],
      [0xC74C, 0xC18C, 0xAC70]]),
   (u ''unmute'',
     [u ''unmute'',
      [0x89E3, 0x9664, 0x975C, 0x97F3],
      [0x30DF, 0x30E5, 0x30FC, 0x30C8, 0x89E3, 0x9664],
      u ''activar sonido'',
      u ''activer son'',
      [0x0437, 0x0432, 0x0443, 0x043A] @ u '' '' @ [0x0432, 0x043A, 0x043B, 0x044E, 0x0447, 0x0438, 0x0442, 0x044C],
      [0x0625, 0x0644, 0x063A, 0x0627, 0x0621] @ u '' '' @ [0x0643, 0x062A, 0x0645] @ u '' '' @ [0x0627, 0x0644, 0x0635, 0x0648, 0x062A],
      [0xC74C, 0xC18C, 0xAC70] @ u '' '' @ [0xD574, 0xC81C]]),
   (u ''speed05'',
     [u ''0.5 speed'',
      u ''half speed'',
      u ''slow'',
      u ''0.5'' @ [0x500D, 0x901F],
      u ''0.5'' @ [0x500D, 0x901F],
      u ''0.5 velocidad'',
      u ''0.5 vitesse'',
      u ''0.5 '' @ [0x0441, 0x043A, 0x043E, 0x0440, 0x043E, 0x0441, 0x0442, 0x044C],
      [0x0633, 0x0631, 0x0639, 0x0629] @ u '' 0.5'',
      u ''0.5'' @ [0xBC30, 0xC18D]]),
   (u ''speed1'',
     [u ''normal speed'',
      u ''1x speed'',
      u ''1 speed'',
      u ''regular speed'',
      [0x6B63, 0x5E38, 0x901F, 0x5EA6],
      [0x901A, 0x5E38, 0x901F, 0x5EA6],
      u ''velocidad normal'',
      u ''vitesse normale'',
      [0x043E, 0x0431, 0x044B, 0x0447, 0x043D, 0x0430, 0x044F] @ u '' '' @ [0x0441, 0x043A, 0x043E, 0x0440, 0x043E, 0x0441, 0x0442, 0x044C],
      [0x0627, 0x0644, 0x0633, 0x0631, 0x0639, 0x0629] @ u '' '' @ [0x0627, 0x0644, 0x0639, 0x0627, 0x062F, 0x064A, 0x0629],
      [0xC815, 0xC0C1] @ u '' '' @ [0xC18D, 0xB3C4]]),
   (u ''speed125'',
     [u ''1.25 speed'',
      u ''1.25x speed'',
      u ''1.25'' @ [0x500D, 0x901F],
      u ''1.25'' @ [0x500D, 0x901F],
      u ''1.25 velocidad'',
      u ''1.25 vitesse'',
      u ''1.25 '' @ [0x0441, 0x043A, 0x043E, 0x0440, 0x043E, 0x0441, 0x0442, 0x044C],
      [0x0633, 0x0631, 0x0639, 0x0629] @ u '' 1.25'',
      u ''1.25'' @ [0xBC30, 0xC18D]]),
   (u ''speed15'',
     [u ''1.5 speed'',
      u ''1.5x speed'',
      u ''fast'',
      u ''1.5'' @ [0x500D, 0x901F],
      u ''1.5'' @ [0x500D, 0x901F],
      u ''1.5 velocidad'',
      u ''1.5 vitesse'',
      u ''1.5 '' @ [0x0441, 0x043A, 0x043E, 0x0440, 0x043E, 0x0441, 0x0442, 0x044C],
      [0x0633, 0x0631, 0x0639, 0x0629] @ u '' 1.5'',
      u ''1.5'' @ [0xBC30, 0xC18D]]),
   (u ''speed2'',
     [u ''2 speed'',
      u ''2x speed'',
      u ''double speed'',
      u ''2'' @ [0x500D, 0x901F],
      u ''2'' @ [0x500D, 0x901F],
      u ''2 velocidad'',
      u ''2 vitesse'',
      u ''2 '' @ [0x0441, 0x043A, 0x043E, 0x0440, 0x043E, 0x0441, 0x0442, 0x044C],
      [0x0633, 0x0631, 0x0639, 0x0629] @ u '' 2'',
      u ''2'' @ [0xBC30, 0xC18D]]),
   (u ''fullscreen'',
     [u ''fullscreen'',
      u ''full screen'',
      u ''enter fullscreen'',
      [0x5168, 0x87A2, 0x5E55],
      [0x30D5, 0x30EB, 0x30B9, 0x30AF, 0x30EA, 0x30FC, 0x30F3],
      u ''pantalla completa'',
      u ''plein '' @ [0x00E9] @ u ''cran'',
      [0x043F, 0x043E, 0x043B, 0x043D, 0x044B, 0x0439] @ u '' '' @ [0x044D, 0x043A, 0x0440, 0x0430, 0x043D],
      [0x0645, 0x0644, 0x0621] @ u '' '' @ [0x0627, 0x0644, 0x0634, 0x0627, 0x0634, 0x0629],
      [0xC804, 0xCCB4, 0xD654, 0xBA74]]),
   (u ''exitFullscreen'',
     [u ''exit fullscreen'',
      u ''leave fullscreen'',
      [0x96E2, 0x958B, 0x5168, 0x87A2, 0x5E55],
      [0x30D5, 0x30EB, 0x30B9, 0x30AF, 0x30EA, 0x30FC, 0x30F3, 0x7D42, 0x4E86],
      u ''salir pantalla completa'',
      u ''quitter plein '' @ [0x00E9] @ u ''cran'',
      [0x0432, 0x044B, 0x0439, 0x0442, 0x0438] @ u '' '' @ [0x0438, 0x0437] @ u '' '' @ [0x043F, 0x043E, 0x043B, 0x043D, 0x043E, 0x0433, 0x043E] @ u '' '' @ [0x044D, 0x043A, 0x0440, 0x0430, 0x043D, 0x0430],
      [0x0627, 0x0644, 0x062E, 0x0631, 0x0648, 0x062C] @ u '' '' @ [0x0645, 0x0646] @ u '' '' @ [0x0645, 0x0644, 0x0621] @ u '' '' @ [0x0627, 0x0644, 0x0634, 0x0627, 0x0634, 0x0629],
      [0xC804, 0xCCB4, 0xD654, 0xBA74] @ u '' '' @ [0xB098, 0xAC00, 0xAE30]]),
   (u ''bookmark'',
     [u ''bookmark'',
      u ''add bookmark'',
      u ''mark'',
      [0x66F8, 0x7C64],
      [0x30D6, 0x30C3, 0x30AF, 0x30DE, 0x30FC, 0x30AF],
      u ''marcador'',
      u ''marque-page'',
      [0x0437, 0x0430, 0x043A, 0x043B, 0x0430, 0x0434, 0x043A, 0x0430],
      [0x0625, 0x0634, 0x0627, 0x0631, 0x0629] @ u '' '' @ [0x0645, 0x0631, 0x062C, 0x0639, 0x064A, 0x0629],
      [0xBD81, 0xB9C8, 0xD06C]]),
   (u ''favorite'',
     [u ''favorite'',
      u ''add favorite'',
      u ''like'',
      [0x6700, 0x611B],
      [0x304A, 0x6C17, 0x306B, 0x5165, 0x308A],
      u ''favorito'',
      u ''favori'',
      [0x0438, 0x0437, 0x0431, 0x0440, 0x0430, 0x043D, 0x043D, 0x043E, 0x0435],
      [0x0645, 0x0641, 0x0636, 0x0644],
      [0xC990, 0xACA8, 0xCC3E, 0xAE30]])]"

text \<open>
  \<open>customCommands\<close> is a JavaScript object used as a mapping from \<open>commandId\<close> to
  trigger phrase; it is modelled by the list \<open>Object.entries\<close> yields: keys that are
  array indices first, in ascending numeric order, then the other keys in insertion
  order.
\<close>

type_synonym overrides = "(jsstring \<times> jsstring) list"

definition isDigit :: "nat \<Rightarrow> bool" where
  "isDigit c = (0x30 \<le> c \<and> c \<le> 0x39)"

definition digitsValue :: "jsstring \<Rightarrow> nat" where
  "digitsValue s = foldl (\<lambda>n c. 10 * n + (c - 0x30)) 0 s"

text \<open>An array index is a canonical numeric string below \<open>2^32 - 1\<close>.\<close>

definition isArrayIndex :: "jsstring \<Rightarrow> bool" where
  "isArrayIndex k =
     (k \<noteq> [] \<and> list_all isDigit k \<and> (hd k = 0x30 \<longrightarrow> length k = 1)
      \<and> digitsValue k < 4294967295)"

fun insertIndexKey :: "jsstring \<Rightarrow> jsstring \<Rightarrow> overrides \<Rightarrow> overrides" where
  "insertIndexKey k v [] = [(k, v)]"
| "insertIndexKey k v ((k', v') # rest) =
     (if isArrayIndex k' \<and> digitsValue k' < digitsValue k
      then (k', v') # insertIndexKey k v rest
      else (k, v) # (k', v') # rest)"

text \<open>
  \<open>saveCustomCommand\<close> sets \<open>customCommands\<close> to
  \<open>{ ...customCommands, [commandId]: trigger }\<close>; any \<open>commandId\<close> and any \<open>trigger\<close>
  are accepted. (The write to \<open>AsyncStorage\<close> follows the state update.)
\<close>

definition saveCustomCommand :: "overrides \<Rightarrow> jsstring \<Rightarrow> jsstring \<Rightarrow> overrides" where
  "saveCustomCommand customCommands commandId trigger =
     (if commandId \<in> set (map fst customCommands)
      then map (\<lambda>(k, v). if k = commandId then (k, trigger) else (k, v)) customCommands
      else if isArrayIndex commandId then insertIndexKey commandId trigger customCommands
      else customCommands @ [(commandId, trigger)])"

text \<open>
  \<open>processVoiceCommand\<close>: an empty text is refused; the text is lower-cased and
  trimmed; the first custom command whose lower-cased trigger the command includes is
  executed; otherwise the first row of the built-in table one of whose lower-cased
  triggers the command includes.
\<close>

definition processVoiceCommand ::
  "(jsstring \<Rightarrow> jsstring) \<Rightarrow> (call \<Rightarrow> call_outcome) \<Rightarrow> overrides \<Rightarrow> jsstring \<Rightarrow> controls
     \<Rightarrow> bool \<times> call list" where
  "processVoiceCommand toLowerCase outcome customCommands txt videoControls =
    (if txt = [] then (False, [])
     else
       let command = js_trim (toLowerCase txt) in
       (case find (\<lambda>(commandId, trigger). js_includes command (toLowerCase trigger))
               customCommands of
          Some (commandId, trigger) \<Rightarrow> executeCommand outcome commandId videoControls
        | None \<Rightarrow>
           (case find (\<lambda>(action, triggers).
                     list_ex (\<lambda>trigger. js_includes command (toLowerCase trigger)) triggers)
                   commands of
              Some (action, triggers) \<Rightarrow> executeCommand outcome action videoControls
            | None \<Rightarrow> (False, []))))"

text \<open>The case labels of the \<open>switch\<close> in \<open>executeCommand\<close>.\<close>

definition knownCommands :: "jsstring list" where
  "knownCommands =
     [u ''play'', u ''pause'', u ''stop'',
      u ''forward10'', u ''forward20'', u ''forward30'',
      u ''backward10'', u ''backward20'', u ''backward30'',
      u ''volumeUp'', u ''volumeDown'', u ''volumeMax'', u ''mute'', u ''unmute'',
      u ''speed05'', u ''speed1'', u ''speed10'', u ''speed125'', u ''speed15'', u ''speed2'',
      u ''fullscreen'', u ''exitFullscreen'', u ''bookmark'', u ''favorite'']"

section \<open>The player behind videoControls\<close>

text \<open>
  Modelled from the spec: the hook \<open>use-video-player\<close> is not among the sources. The
  spec lists its capability set as \<open>setVolume(0..1)\<close>, \<open>toggleFullscreen()\<close> and the
  readable \<open>uri\<close>, \<open>volume\<close>, \<open>player\<close>; the component \<open>VideoControls\<close> reads
  \<open>isFullscreen\<close> beside them. \<open>setVolume\<close> stores the volume it is given, kept
  within 0..1, \<open>toggleFullscreen\<close> flips the flag, and the other calls leave these
  fields as they are.
\<close>

record player_state =
  p_uri :: "jsstring option"
  p_player :: bool
  p_volume :: real
  p_isFullscreen :: bool

text \<open>
  Modelled from the spec: what a call does to the player (the functions of
  \<open>use-video-player\<close> are missing from the sources).
\<close>

fun playerApply :: "call \<Rightarrow> player_state \<Rightarrow> player_state" where
  "playerApply (SetVolume (Num v)) p = p\<lparr>p_volume := min 1 (max 0 v)\<rparr>"
| "playerApply ToggleFullscreen p = p\<lparr>p_isFullscreen := \<not> p_isFullscreen p\<rparr>"
| "playerApply c p = p"

text \<open>The \<open>videoControls\<close> object a render of \<open>VoiceButton\<close> gets from the hook.\<close>

definition controlsOf :: "player_state \<Rightarrow> controls" where
  "controlsOf p = \<lparr>uri = p_uri p, player = p_player p, volume = Some (Num (p_volume p))\<rparr>"

text \<open>
  One dispatch against the player: \<open>executeCommand\<close> on the current
  \<open>videoControls\<close>, then the calls that returned take effect (a call that throws or
  whose promise is rejected leaves the player as it is).
\<close>

definition dispatchOnPlayer ::
  "(call \<Rightarrow> call_outcome) \<Rightarrow> jsstring \<Rightarrow> player_state \<Rightarrow> bool \<times> player_state" where
  "dispatchOnPlayer outcome commandId p =
     (case executeCommand outcome commandId (controlsOf p) of
        (ok, calls) \<Rightarrow>
          (ok, foldl (\<lambda>q c. if outcome c = Returns then playerApply c q else q) p calls))"

section \<open>Session controller\<close>

record RecordingState =
  isRecording :: bool
  isProcessing :: bool
  lastCommand :: "jsstring option"
  error :: "jsstring option"
  isListening :: bool
  isPersistentMode :: bool

text \<open>
  The callbacks of the two restart timers. The timer set by \<open>onend\<close> closes over the
  state \<open>prev\<close> that its \<open>setState\<close> updater received; the timer set on a network
  error reads the state when it fires.
\<close>

datatype timer_callback = NetworkRestart | EndRestart RecordingState

text \<open>
  The hook: the state, the refs (for a ref to a recognizer or recorder only whether it
  is non-null is read), and the pending restart timeouts of the event loop as
  (id, delay in ms, callback). Timer ids are non-zero, hence truthy.
\<close>

record hook =
  state :: RecordingState
  recognitionRef :: bool
  mediaRecorderRef :: bool
  persistentRecognitionRef :: bool
  restartTimeoutRef :: "nat option"
  timers :: "(nat \<times> nat \<times> timer_callback) list"
  nextTimer :: nat

definition initialHook :: hook where
  "initialHook =
     \<lparr>state = \<lparr>isRecording = False, isProcessing = False, lastCommand = None, error = None,
                isListening = False, isPersistentMode = False\<rparr>,
      recognitionRef = False, mediaRecorderRef = False, persistentRecognitionRef = False,
      restartTimeoutRef = None, timers = [], nextTimer = 1\<rparr>"

text \<open>The reply of the transcription service to the posted recording.\<close>

datatype stt_outcome = FetchRejects | HttpError | InvalidJson | Transcribed "jsstring option"

text \<open>
  What a call of the hook finds around it: the platform, whether the browser has
  \<open>SpeechRecognition\<close>, the translation \<open>t('voice.error')\<close>, and how the external
  calls it makes turn out.
\<close>

record env =
  isWeb :: bool
  hasSpeechRecognition :: bool
  voiceError :: jsstring
  recognitionStopThrows :: bool
  recognitionStartThrows :: bool
  getUserMediaRejects :: bool
  transcription :: stt_outcome

text \<open>The external calls that returned normally.\<close>

datatype effect =
    PersistentRecognitionStart | PersistentRecognitionStop
  | RecognitionStart | RecognitionStop
  | GetUserMedia | MediaRecorderStart | MediaRecorderStop
  | SetTimeout nat nat | ClearTimeout nat
  | PostAudio | HapticImpact | HapticSuccess | HapticError

definition clearTimeout :: "nat \<Rightarrow> hook \<Rightarrow> hook" where
  "clearTimeout tid h = h\<lparr>timers := filter (\<lambda>(i, d, cb). i \<noteq> tid) (timers h)\<rparr>"

definition setTimeout :: "nat \<Rightarrow> timer_callback \<Rightarrow> hook \<Rightarrow> hook" where
  "setTimeout delay cb h =
     h\<lparr>timers := timers h @ [(nextTimer h, delay, cb)],
       restartTimeoutRef := Some (nextTimer h),
       nextTimer := Suc (nextTimer h)\<rparr>"

text \<open>The \<open>catch\<close> block of \<open>startPersistentListening\<close>.\<close>

definition startPersistentFailed :: "hook \<Rightarrow> hook" where
  "startPersistentFailed h =
     h\<lparr>state := (state h)\<lparr>error := Some (u ''Failed to start persistent listening mode''),
                            isPersistentMode := False, isListening := False\<rparr>\<rparr>"

definition startPersistentListening :: "env \<Rightarrow> hook \<Rightarrow> hook \<times> effect list" where
  "startPersistentListening e h =
    (if isWeb e then
       (if hasSpeechRecognition e then
          (if persistentRecognitionRef h \<and> recognitionStopThrows e
           then (startPersistentFailed h, [])
           else
             let (h1, effs1) =
                   (if persistentRecognitionRef h
                    then (h\<lparr>persistentRecognitionRef := False\<rparr>, [PersistentRecognitionStop])
                    else (h, []));
                 (h2, effs2) =
                   (case restartTimeoutRef h1 of
                      Some tid \<Rightarrow>
                        ((clearTimeout tid h1)\<lparr>restartTimeoutRef := None\<rparr>,
                         effs1 @ [ClearTimeout tid])
                    | None \<Rightarrow> (h1, effs1))
             in if recognitionStartThrows e
                then (startPersistentFailed h2, effs2)
                else (h2\<lparr>persistentRecognitionRef := True\<rparr>,
                      effs2 @ [PersistentRecognitionStart]))
        else
          (h\<lparr>state := (state h)\<lparr>error := Some (u ''Speech Recognition not supported in this browser. Please use Chrome, Edge, or Safari.''),
                                 isPersistentMode := False\<rparr>\<rparr>, []))
     else
       (h\<lparr>state := (state h)\<lparr>isPersistentMode := True, isListening := True,
                              error := None\<rparr>\<rparr>, []))"

text \<open>The handlers that \<open>startPersistentListening\<close> installs on the recognizer.\<close>

definition persistentOnStart :: "hook \<Rightarrow> hook" where
  "persistentOnStart h =
     h\<lparr>state := (state h)\<lparr>isListening := True, isPersistentMode := True, error := None\<rparr>\<rparr>"

text \<open>
  \<open>onresult\<close>: the event's results as (isFinal, transcript of the first alternative);
  reading the last result of an empty list throws, and the \<open>catch\<close> block drops it.
\<close>

definition persistentOnResult ::
  "(jsstring \<Rightarrow> jsstring) \<Rightarrow> (bool \<times> jsstring) list \<Rightarrow> hook \<Rightarrow> hook" where
  "persistentOnResult toLowerCase results h =
     (if results = [] then h
      else case last results of
        (isFinal, transcript) \<Rightarrow>
          if isFinal
          then h\<lparr>state := (state h)\<lparr>lastCommand := Some (js_trim (toLowerCase transcript)),
                                      error := None\<rparr>\<rparr>
          else h)"

definition persistentOnError :: "jsstring \<Rightarrow> hook \<Rightarrow> hook \<times> effect list" where
  "persistentOnError code h =
    (if code = u ''no-speech'' then (h, [])
     else if code = u ''audio-capture'' then
       (h\<lparr>state := (state h)\<lparr>error := Some (u ''Microphone access denied or not available''),
                              isListening := False, isPersistentMode := False\<rparr>\<rparr>, [])
     else if code = u ''not-allowed'' then
       (h\<lparr>state := (state h)\<lparr>error := Some (u ''Microphone permission denied. Please allow microphone access.''),
                              isListening := False, isPersistentMode := False\<rparr>\<rparr>, [])
     else if code = u ''network'' then
       (let (h1, effs1) =
              (case restartTimeoutRef h of
                 Some tid \<Rightarrow> (clearTimeout tid h, [ClearTimeout tid])
               | None \<Rightarrow> (h, []))
        in (setTimeout 3000 NetworkRestart h1, effs1 @ [SetTimeout (nextTimer h1) 3000]))
     else if code = u ''aborted'' then (h, [])
     else
       (h\<lparr>state := (state h)\<lparr>error := Some (u ''Speech recognition error: '' @ code),
                              isListening := False\<rparr>\<rparr>, []))"

definition persistentOnEnd :: "hook \<Rightarrow> hook \<times> effect list" where
  "persistentOnEnd h =
    (let (h1, effs1) =
           (case restartTimeoutRef h of
              Some tid \<Rightarrow> (clearTimeout tid h, [ClearTimeout tid])
            | None \<Rightarrow> (h, []))
     in if isPersistentMode (state h1) \<and> persistentRecognitionRef h1
        then (setTimeout 500 (EndRestart (state h1)) h1,
              effs1 @ [SetTimeout (nextTimer h1) 500])
        else (h1, effs1))"

text \<open>
  A timeout fires: a timer that is no longer pending does nothing; otherwise it leaves
  the pending set and its callback runs.
\<close>

definition fireTimer :: "env \<Rightarrow> nat \<Rightarrow> hook \<Rightarrow> hook \<times> effect list" where
  "fireTimer e tid h =
    (case find (\<lambda>(i, d, cb). i = tid) (timers h) of
       None \<Rightarrow> (h, [])
     | Some (i, d, cb) \<Rightarrow>
         (let h1 = clearTimeout tid h in
          case cb of
            NetworkRestart \<Rightarrow>
              if isPersistentMode (state h1) then startPersistentListening e h1 else (h1, [])
          | EndRestart prev \<Rightarrow>
              if isPersistentMode prev then startPersistentListening e h1 else (h1, [])))"

definition stopPersistentListening :: "env \<Rightarrow> hook \<Rightarrow> hook \<times> effect list" where
  "stopPersistentListening e h =
    (let (h1, effs1) =
           (case restartTimeoutRef h of
              Some tid \<Rightarrow>
                ((clearTimeout tid h)\<lparr>restartTimeoutRef := None\<rparr>, [ClearTimeout tid])
            | None \<Rightarrow> (h, []));
         (h2, effs2) =
           (if persistentRecognitionRef h1 \<and> \<not> recognitionStopThrows e
            then (h1\<lparr>persistentRecognitionRef := False\<rparr>, effs1 @ [PersistentRecognitionStop])
            else (h1, effs1))
     in (h2\<lparr>state := (state h2)\<lparr>isListening := False, isPersistentMode := False,
                                 error := None\<rparr>\<rparr>, effs2))"

definition togglePersistentMode :: "env \<Rightarrow> hook \<Rightarrow> hook \<times> effect list" where
  "togglePersistentMode e h =
    (if isPersistentMode (state h) then stopPersistentListening e h
     else if isWeb e \<and> getUserMediaRejects e then
       (h\<lparr>state := (state h)\<lparr>error := Some (u ''Microphone permission is required for voice commands'')\<rparr>\<rparr>, [])
     else if isWeb e then
       (case startPersistentListening e h of (h', effs) \<Rightarrow> (h', GetUserMedia # effs))
     else startPersistentListening e h)"

text \<open>One-shot recording.\<close>

definition startRecording :: "env \<Rightarrow> hook \<Rightarrow> hook \<times> effect list" where
  "startRecording e h =
    (if isWeb e \<and> hasSpeechRecognition e then
       (if recognitionStartThrows e
        then (h\<lparr>state := (state h)\<lparr>error := Some (voiceError e)\<rparr>\<rparr>, [])
        else (h\<lparr>recognitionRef := True,
                state := (state h)\<lparr>isRecording := True, error := None\<rparr>\<rparr>,
              [RecognitionStart]))
     else
       (if getUserMediaRejects e
        then (h\<lparr>state := (state h)\<lparr>error := Some (voiceError e)\<rparr>\<rparr>, [])
        else (h\<lparr>mediaRecorderRef := True,
                state := (state h)\<lparr>isRecording := True, error := None\<rparr>\<rparr>,
              [GetUserMedia, MediaRecorderStart] @ (if isWeb e then [] else [HapticImpact]))))"

text \<open>The handlers that \<open>startRecording\<close> installs on the one-shot recognizer.\<close>

definition recognitionOnResult :: "(jsstring \<Rightarrow> jsstring) \<Rightarrow> jsstring \<Rightarrow> hook \<Rightarrow> hook" where
  "recognitionOnResult toLowerCase transcript h =
     h\<lparr>state := (state h)\<lparr>isRecording := False,
                           lastCommand := Some (js_trim (toLowerCase transcript)),
                           error := None\<rparr>\<rparr>"

definition recognitionOnError :: "env \<Rightarrow> hook \<Rightarrow> hook" where
  "recognitionOnError e h =
     h\<lparr>state := (state h)\<lparr>isRecording := False, error := Some (voiceError e)\<rparr>\<rparr>"

text \<open>
  \<open>stopRecording\<close> returns the transcript or \<open>null\<close> (\<open>None\<close>). Its \<open>catch\<close>
  block handles a throwing \<open>stop()\<close> and every failure of the transcription request.
\<close>

definition stopRecordingFailed :: "env \<Rightarrow> hook \<Rightarrow> effect list \<Rightarrow> hook \<times> effect list \<times> jsstring option" where
  "stopRecordingFailed e h effs =
     (h\<lparr>state := (state h)\<lparr>isProcessing := False, error := Some (voiceError e)\<rparr>\<rparr>,
      effs @ (if isWeb e then [] else [HapticError]), None)"

definition stopRecording ::
  "env \<Rightarrow> (jsstring \<Rightarrow> jsstring) \<Rightarrow> hook \<Rightarrow> hook \<times> effect list \<times> jsstring option" where
  "stopRecording e toLowerCase h =
    (let h0 = h\<lparr>state := (state h)\<lparr>isRecording := False, isProcessing := True\<rparr>\<rparr> in
     if recognitionRef h0 then
       (if recognitionStopThrows e then stopRecordingFailed e h0 []
        else (h0\<lparr>recognitionRef := False, state := (state h0)\<lparr>isProcessing := False\<rparr>\<rparr>,
              [RecognitionStop], None))
     else if \<not> mediaRecorderRef h0 then
       (h0\<lparr>state := (state h0)\<lparr>isProcessing := False\<rparr>\<rparr>, [], None)
     else
       (let h1 = h0\<lparr>mediaRecorderRef := False\<rparr> in
        case transcription e of
          Transcribed txt \<Rightarrow>
            (let result = map_option (\<lambda>s. js_trim (toLowerCase s)) txt in
             (h1\<lparr>state := (state h1)\<lparr>isProcessing := False, lastCommand := result,
                                      error := None\<rparr>\<rparr>,
              [MediaRecorderStop, PostAudio] @ (if isWeb e then [] else [HapticSuccess]),
              result))
        | FetchRejects \<Rightarrow> stopRecordingFailed e h1 [MediaRecorderStop]
        | HttpError \<Rightarrow> stopRecordingFailed e h1 [MediaRecorderStop, PostAudio]
        | InvalidJson \<Rightarrow> stopRecordingFailed e h1 [MediaRecorderStop, PostAudio]))"

definition toggleRecording ::
  "env \<Rightarrow> (jsstring \<Rightarrow> jsstring) \<Rightarrow> hook \<Rightarrow> hook \<times> effect list \<times> jsstring option" where
  "toggleRecording e toLowerCase h =
    (if isRecording (state h) then stopRecording e toLowerCase h
     else (case startRecording e h of (h', effs) \<Rightarrow> (h', effs, None)))"

text \<open>
  The microphone button of \<open>VoiceButton\<close>: \<open>onPress={toggleRecording}\<close> with
  \<open>disabled={isProcessing || isPersistentMode}\<close>; a disabled button ignores the press.
\<close>

definition pressVoiceButton ::
  "env \<Rightarrow> (jsstring \<Rightarrow> jsstring) \<Rightarrow> hook \<Rightarrow> hook \<times> effect list \<times> jsstring option" where
  "pressVoiceButton e toLowerCase h =
    (if isProcessing (state h) \<or> isPersistentMode (state h) then (h, [], None)
     else toggleRecording e toLowerCase h)"

text \<open>
  The states the hook can be in: from the initial one, by any call of its operations
  and any event of the recognizer or the timers, in any order and any environment.
  Each \<open>setState\<close> update is applied at once, in the order of the calls.
\<close>

inductive reachable :: "hook \<Rightarrow> bool" where
  r_init: "reachable initialHook"
| r_startPersistent: "reachable h \<Longrightarrow> reachable (fst (startPersistentListening e h))"
| r_stopPersistent: "reachable h \<Longrightarrow> reachable (fst (stopPersistentListening e h))"
| r_togglePersistent: "reachable h \<Longrightarrow> reachable (fst (togglePersistentMode e h))"
| r_onStart: "reachable h \<Longrightarrow> reachable (persistentOnStart h)"
| r_onResult: "reachable h \<Longrightarrow> reachable (persistentOnResult lc results h)"
| r_onError: "reachable h \<Longrightarrow> reachable (fst (persistentOnError code h))"
| r_onEnd: "reachable h \<Longrightarrow> reachable (fst (persistentOnEnd h))"
| r_fire: "reachable h \<Longrightarrow> reachable (fst (fireTimer e tid h))"
| r_startRecording: "reachable h \<Longrightarrow> reachable (fst (startRecording e h))"
| r_stopRecording: "reachable h \<Longrightarrow> reachable (fst (stopRecording e lc h))"
| r_recognitionOnResult: "reachable h \<Longrightarrow> reachable (recognitionOnResult lc transcript h)"
| r_recognitionOnError: "reachable h \<Longrightarrow> reachable (recognitionOnError e h)"
| r_toggleRecording: "reachable h \<Longrightarrow> reachable (fst (toggleRecording e lc h))"
| r_pressVoiceButton: "reachable h \<Longrightarrow> reachable (fst (pressVoiceButton e lc h))"

text \<open>Every pending restart timer is the one \<open>restartTimeoutRef\<close> holds.\<close>

definition timers_tracked :: "hook \<Rightarrow> bool" where
  "timers_tracked h = list_all (\<lambda>(i, d, cb). restartTimeoutRef h = Some i) (timers h)"

text \<open>
  Two environments for concrete runs: a browser with \<open>SpeechRecognition\<close> in which
  every external call succeeds, and a browser without it.
\<close>

definition webEnv :: env where
  "webEnv =
     \<lparr>isWeb = True, hasSpeechRecognition = True, voiceError = u ''Voice error'',
      recognitionStopThrows = False, recognitionStartThrows = False,
      getUserMediaRejects = False, transcription = Transcribed None\<rparr>"

definition webEnvNoRecognition :: env where
  "webEnvNoRecognition = webEnv\<lparr>hasSpeechRecognition := False\<rparr>"

section \<open>Facts about strings and lists\<close>

lemma js_startsWith_iff: "js_startsWith s t \<longleftrightarrow> (\<exists>q. s = t @ q)"
  by (induction s t rule: js_startsWith.induct) auto

lemma find_first_index:
  "i < length xs \<Longrightarrow> P (xs ! i) \<Longrightarrow> \<forall>j<i. \<not> P (xs ! j) \<Longrightarrow> find P xs = Some (xs ! i)"
proof (induction xs arbitrary: i)
  case Nil
  then show ?case by simp
next
  case (Cons x xs)
  show ?case
  proof (cases i)
    case 0
    with Cons.prems show ?thesis by simp
  next
    case (Suc k)
    with Cons.prems have "\<not> P x" by auto
    moreover have "find P xs = Some (xs ! k)"
    proof (rule Cons.IH)
      show "k < length xs" using Cons.prems Suc by simp
      show "P (xs ! k)" using Cons.prems Suc by simp
      show "\<forall>j<k. \<not> P (xs ! j)" using Cons.prems(3) Suc by auto
    qed
    ultimately show ?thesis using Suc by simp
  qed
qed

section \<open>The dispatcher\<close>

lemma commandCall_None_iff:
  "commandCall commandId videoControls = None \<longleftrightarrow> commandId \<notin> set knownCommands"
  by (simp add: commandCall_def knownCommands_def Let_def)

lemma executeCommand_cases:
  "executeCommand outcome commandId vc =
     (if uri_falsy vc \<or> \<not> player vc then (False, [])
      else case commandCall commandId vc of None \<Rightarrow> (False, [])
           | Some c \<Rightarrow> (\<not> caught outcome c, [c]))"
  by (simp add: executeCommand_def executeCommand_try_def caught_def
        split: option.splits call_outcome.splits)

lemma caught_Returns [simp]: "outcome c = Returns \<Longrightarrow> \<not> caught outcome c"
  by (simp add: caught_def)

lemma caught_all_Returns [simp]: "\<not> caught (\<lambda>c. Returns) c"
  by (simp add: caught_def)

lemma commandCall_fullscreen: "commandCall (u ''fullscreen'') vc = Some ToggleFullscreen"
  by (simp add: commandCall_def u_def)

lemma commandCall_exitFullscreen: "commandCall (u ''exitFullscreen'') vc = Some ToggleFullscreen"
  by (simp add: commandCall_def u_def)

lemma commandCall_mute: "commandCall (u ''mute'') vc = Some (SetVolume (Num 0))"
  by (simp add: commandCall_def u_def)

lemma commandCall_unmute:
  "commandCall (u ''unmute'') vc =
     Some (SetVolume (Num (if volume_or_zero (volume vc) > 0 then volume_or_zero (volume vc) else 1)))"
  by (simp add: commandCall_def u_def Let_def)

lemma commandCall_play: "commandCall (u ''play'') vc = Some Play"
  by (simp add: commandCall_def u_def)

lemma commandCall_pause: "commandCall (u ''pause'') vc = Some Pause"
  by (simp add: commandCall_def u_def)

text \<open>
  What \<open>executeCommand\<close> does in every case: it returns \<open>false\<close> and makes no call on
  the player when \<open>videoControls.uri\<close> is falsy, when \<open>videoControls.player\<close> is falsy,
  or when \<open>commandId\<close> is none of the case labels; when it returns \<open>true\<close> it has
  made exactly one call; a call that throws, and an awaited call whose promise is
  rejected, raise in the \<open>try\<close> block and are turned into the result \<open>false\<close>; the
  rejected promise of a call that is not awaited is not seen, and the result is
  \<open>true\<close>.
\<close>

lemma executeCommand_refuses_or_calls_once:
  "(uri_falsy vc \<or> \<not> player vc \<or> commandId \<notin> set knownCommands
      \<longrightarrow> executeCommand outcome commandId vc = (False, []))
   \<and> (fst (executeCommand outcome commandId vc)
      \<longrightarrow> (\<exists>c. snd (executeCommand outcome commandId vc) = [c]))
   \<and> (\<forall>c. \<not> uri_falsy vc \<and> player vc \<and> commandCall commandId vc = Some c
           \<and> (outcome c = Throws \<or> (outcome c = Rejects \<and> awaited c))
      \<longrightarrow> executeCommand_try outcome commandId vc = (Inl (Thrown c), [c])
          \<and> executeCommand outcome commandId vc = (False, [c]))
   \<and> (\<forall>c. \<not> uri_falsy vc \<and> player vc \<and> commandCall commandId vc = Some c
           \<and> outcome c = Rejects \<and> \<not> awaited c
      \<longrightarrow> executeCommand_try outcome commandId vc = (Inr True, [c])
          \<and> executeCommand outcome commandId vc = (True, [c]))"
proof (intro conjI impI allI)
  assume "uri_falsy vc \<or> \<not> player vc \<or> commandId \<notin> set knownCommands"
  then show "executeCommand outcome commandId vc = (False, [])"
    using commandCall_None_iff [of commandId vc] by (auto simp: executeCommand_cases)
next
  assume "fst (executeCommand outcome commandId vc)"
  then show "\<exists>c. snd (executeCommand outcome commandId vc) = [c]"
    by (auto simp: executeCommand_cases split: if_splits option.splits)
next
  fix c
  assume "\<not> uri_falsy vc \<and> player vc \<and> commandCall commandId vc = Some c
           \<and> (outcome c = Throws \<or> (outcome c = Rejects \<and> awaited c))"
  then show "executeCommand_try outcome commandId vc = (Inl (Thrown c), [c])"
    by (auto simp: executeCommand_try_def)
next
  fix c
  assume "\<not> uri_falsy vc \<and> player vc \<and> commandCall commandId vc = Some c
           \<and> (outcome c = Throws \<or> (outcome c = Rejects \<and> awaited c))"
  then show "executeCommand outcome commandId vc = (False, [c])"
    by (auto simp: executeCommand_cases caught_def)
next
  fix c
  assume "\<not> uri_falsy vc \<and> player vc \<and> commandCall commandId vc = Some c
           \<and> outcome c = Rejects \<and> \<not> awaited c"
  then show "executeCommand_try outcome commandId vc = (Inr True, [c])"
    by (simp add: executeCommand_try_def)
next
  fix c
  assume "\<not> uri_falsy vc \<and> player vc \<and> commandCall commandId vc = Some c
           \<and> outcome c = Rejects \<and> \<not> awaited c"
  then show "executeCommand outcome commandId vc = (True, [c])"
    by (simp add: executeCommand_cases caught_def)
qed

lemma executeCommand_refuses_or_calls_once_examples:
  "executeCommand (\<lambda>c. Returns) (u ''play'') \<lparr>uri = None, player = True, volume = None\<rparr> = (False, [])
   \<and> executeCommand (\<lambda>c. Returns) (u ''play'') \<lparr>uri = Some (u ''a.mp4''), player = False, volume = None\<rparr> = (False, [])
   \<and> executeCommand (\<lambda>c. Returns) (u ''dance'') \<lparr>uri = Some (u ''a.mp4''), player = True, volume = None\<rparr> = (False, [])
   \<and> executeCommand (\<lambda>c. Returns) (u ''play'') \<lparr>uri = Some (u ''a.mp4''), player = True, volume = None\<rparr> = (True, [Play])
   \<and> executeCommand (\<lambda>c. Throws) (u ''play'') \<lparr>uri = Some (u ''a.mp4''), player = True, volume = None\<rparr> = (False, [Play])
   \<and> executeCommand (\<lambda>c. Rejects) (u ''play'') \<lparr>uri = Some (u ''a.mp4''), player = True, volume = None\<rparr> = (False, [Play])"
proof -
  let ?loaded = "\<lparr>uri = Some (u ''a.mp4''), player = True, volume = None\<rparr>"
  have a: "uri_falsy \<lparr>uri = None, player = True, volume = None\<rparr>"
    by (simp add: uri_falsy_def)
  have b: "\<not> uri_falsy ?loaded" by (simp add: uri_falsy_def u_def)
  have c: "u ''dance'' \<notin> set knownCommands" by (simp add: knownCommands_def u_def)
  have d: "commandCall (u ''play'') ?loaded = Some Play" by (rule commandCall_play)
  have 1: "executeCommand (\<lambda>c. Returns) (u ''play'') \<lparr>uri = None, player = True, volume = None\<rparr> = (False, [])"
    using a executeCommand_refuses_or_calls_once
            [of "\<lparr>uri = None, player = True, volume = None\<rparr>" "u ''play''" "\<lambda>c. Returns"]
    by blast
  have 2: "executeCommand (\<lambda>c. Returns) (u ''play'') \<lparr>uri = Some (u ''a.mp4''), player = False, volume = None\<rparr> = (False, [])"
    using executeCommand_refuses_or_calls_once
            [of "\<lparr>uri = Some (u ''a.mp4''), player = False, volume = None\<rparr>" "u ''play''" "\<lambda>c. Returns"]
    by simp
  have 3: "executeCommand (\<lambda>c. Returns) (u ''dance'') ?loaded = (False, [])"
    using c executeCommand_refuses_or_calls_once [of ?loaded "u ''dance''" "\<lambda>c. Returns"]
    by blast
  have 4: "executeCommand (\<lambda>c. Returns) (u ''play'') ?loaded = (True, [Play])"
    using b d by (simp add: executeCommand_cases caught_def)
  have 5: "executeCommand (\<lambda>c. Throws) (u ''play'') ?loaded = (False, [Play])"
    using b d by (simp add: executeCommand_cases caught_def)
  have 6: "executeCommand (\<lambda>c. Rejects) (u ''play'') ?loaded = (False, [Play])"
    using b d by (simp add: executeCommand_cases caught_def awaited_def)
  from 1 2 3 4 5 6 show ?thesis by blast
qed

text \<open>
  Claim C7. The claim holds for the refusals (falsy \<open>uri\<close>, falsy \<open>player\<close>, unknown
  \<open>commandId\<close>: \<open>false\<close> and no call), for the single call of a successful dispatch,
  and for every call that throws or is awaited (lemma
  \<open>executeCommand_refuses_or_calls_once\<close>). It fails where the code leaves out the
  \<open>await\<close>: with media loaded and the player present, a \<open>toggleFullscreen\<close> that
  fails by a rejected promise makes \<open>executeCommand\<close> return \<open>true\<close> for \<open>fullscreen\<close>
  and for \<open>exitFullscreen\<close>, where the claim says \<open>false\<close>; the same failure of the
  awaited \<open>toggleFavorite\<close> is caught and reported as \<open>false\<close>.
\<close>

theorem toggleFullscreen_rejection_is_not_caught:
  "executeCommand (\<lambda>c. Rejects) (u ''fullscreen'')
      \<lparr>uri = Some (u ''a.mp4''), player = True, volume = None\<rparr> = (True, [ToggleFullscreen])
   \<and> executeCommand (\<lambda>c. Rejects) (u ''exitFullscreen'')
      \<lparr>uri = Some (u ''a.mp4''), player = True, volume = None\<rparr> = (True, [ToggleFullscreen])
   \<and> executeCommand (\<lambda>c. Rejects) (u ''favorite'')
      \<lparr>uri = Some (u ''a.mp4''), player = True, volume = None\<rparr> = (False, [ToggleFavorite])"
proof -
  let ?loaded = "\<lparr>uri = Some (u ''a.mp4''), player = True, volume = None\<rparr>"
  have b: "\<not> uri_falsy ?loaded" by (simp add: uri_falsy_def u_def)
  have f: "commandCall (u ''favorite'') ?loaded = Some ToggleFavorite"
    by (simp add: commandCall_def u_def)
  have 1: "executeCommand (\<lambda>c. Rejects) (u ''fullscreen'') ?loaded = (True, [ToggleFullscreen])"
    using b by (simp add: executeCommand_cases commandCall_fullscreen caught_def awaited_def)
  have 2: "executeCommand (\<lambda>c. Rejects) (u ''exitFullscreen'') ?loaded = (True, [ToggleFullscreen])"
    using b by (simp add: executeCommand_cases commandCall_exitFullscreen caught_def awaited_def)
  have 3: "executeCommand (\<lambda>c. Rejects) (u ''favorite'') ?loaded = (False, [ToggleFavorite])"
    using b f by (simp add: executeCommand_cases caught_def awaited_def)
  from 1 2 3 show ?thesis by blast
qed

lemma dispatchOnPlayer_toggle:
  "a = u ''fullscreen'' \<or> a = u ''exitFullscreen'' \<Longrightarrow>
   dispatchOnPlayer outcome a p =
     (if uri_falsy (controlsOf p) \<or> \<not> p_player p then (False, p)
      else (case outcome ToggleFullscreen of
              Throws \<Rightarrow> (False, p)
            | Rejects \<Rightarrow> (True, p)
            | Returns \<Rightarrow> (True, p\<lparr>p_isFullscreen := \<not> p_isFullscreen p\<rparr>)))"
  by (auto simp: dispatchOnPlayer_def executeCommand_cases commandCall_fullscreen
        commandCall_exitFullscreen controlsOf_def caught_def awaited_def
        split: call_outcome.splits)

lemma uri_falsy_controlsOf_fullscreen [simp]:
  "uri_falsy (controlsOf (p\<lparr>p_isFullscreen := b\<rparr>)) = uri_falsy (controlsOf p)"
  by (simp add: uri_falsy_def controlsOf_def)

lemma uri_falsy_controlsOf_volume [simp]:
  "uri_falsy (controlsOf (p\<lparr>p_volume := v\<rparr>)) = uri_falsy (controlsOf p)"
  by (simp add: uri_falsy_def controlsOf_def)

text \<open>
  Claim C10. The actions \<open>fullscreen\<close> and \<open>exitFullscreen\<close> make the same call,
  \<open>videoControls.toggleFullscreen()\<close>: \<open>executeCommand\<close> gives the same result and the
  same calls for both. So a dispatch of \<open>exitFullscreen\<close> that is not refused (media
  loaded, player present, the call returns) while the player is not in
  fullscreen enters fullscreen, and dispatching either action twice leaves the
  fullscreen flag as it was.
\<close>

theorem fullscreen_and_exitFullscreen_are_one_toggle:
  "executeCommand outcome (u ''exitFullscreen'') vc = executeCommand outcome (u ''fullscreen'') vc
   \<and> (\<not> uri_falsy (controlsOf p) \<and> p_player p \<and> outcome ToggleFullscreen = Returns
        \<and> \<not> p_isFullscreen p
      \<longrightarrow> dispatchOnPlayer outcome (u ''exitFullscreen'') p = (True, p\<lparr>p_isFullscreen := True\<rparr>))
   \<and> (a = u ''fullscreen'' \<or> a = u ''exitFullscreen''
      \<longrightarrow> p_isFullscreen (snd (dispatchOnPlayer outcome a (snd (dispatchOnPlayer outcome a p))))
          = p_isFullscreen p)"
proof (intro conjI impI)
  show "executeCommand outcome (u ''exitFullscreen'') vc = executeCommand outcome (u ''fullscreen'') vc"
    by (simp add: executeCommand_cases commandCall_fullscreen commandCall_exitFullscreen)
next
  assume "\<not> uri_falsy (controlsOf p) \<and> p_player p \<and> outcome ToggleFullscreen = Returns \<and> \<not> p_isFullscreen p"
  then show "dispatchOnPlayer outcome (u ''exitFullscreen'') p = (True, p\<lparr>p_isFullscreen := True\<rparr>)"
    by (simp add: dispatchOnPlayer_toggle)
next
  assume a: "a = u ''fullscreen'' \<or> a = u ''exitFullscreen''"
  show "p_isFullscreen (snd (dispatchOnPlayer outcome a (snd (dispatchOnPlayer outcome a p))))
          = p_isFullscreen p"
    by (cases "outcome ToggleFullscreen") (simp_all add: dispatchOnPlayer_toggle [OF a])
qed

theorem fullscreen_and_exitFullscreen_are_one_toggle_witness:
  "dispatchOnPlayer (\<lambda>c. Returns) (u ''exitFullscreen'')
      \<lparr>p_uri = Some (u ''a.mp4''), p_player = True, p_volume = 1, p_isFullscreen = False\<rparr>
    = (True, \<lparr>p_uri = Some (u ''a.mp4''), p_player = True, p_volume = 1, p_isFullscreen = True\<rparr>)
   \<and> p_isFullscreen (snd (dispatchOnPlayer (\<lambda>c. Returns) (u ''exitFullscreen'')
        (snd (dispatchOnPlayer (\<lambda>c. Returns) (u ''exitFullscreen'')
          \<lparr>p_uri = Some (u ''a.mp4''), p_player = True, p_volume = 1, p_isFullscreen = False\<rparr>))))
      = False"
proof -
  let ?p = "\<lparr>p_uri = Some (u ''a.mp4''), p_player = True, p_volume = 1, p_isFullscreen = False\<rparr>"
  note t = fullscreen_and_exitFullscreen_are_one_toggle
             [of "\<lambda>c. Returns" "controlsOf ?p" ?p "u ''exitFullscreen''"]
  have h: "\<not> uri_falsy (controlsOf ?p) \<and> p_player ?p \<and> \<not> False \<and> \<not> p_isFullscreen ?p"
    by (simp add: uri_falsy_def controlsOf_def u_def)
  from t h have "dispatchOnPlayer (\<lambda>c. Returns) (u ''exitFullscreen'') ?p
                   = (True, ?p\<lparr>p_isFullscreen := True\<rparr>)"
    by blast
  then have 1: "dispatchOnPlayer (\<lambda>c. Returns) (u ''exitFullscreen'') ?p
                   = (True, \<lparr>p_uri = Some (u ''a.mp4''), p_player = True, p_volume = 1,
                             p_isFullscreen = True\<rparr>)"
    by simp
  from t have "p_isFullscreen (snd (dispatchOnPlayer (\<lambda>c. Returns) (u ''exitFullscreen'')
        (snd (dispatchOnPlayer (\<lambda>c. Returns) (u ''exitFullscreen'') ?p)))) = p_isFullscreen ?p"
    by blast
  then have 2: "p_isFullscreen (snd (dispatchOnPlayer (\<lambda>c. Returns) (u ''exitFullscreen'')
        (snd (dispatchOnPlayer (\<lambda>c. Returns) (u ''exitFullscreen'') ?p)))) = False"
    by (simp only: player_state.select_convs)
  from 1 2 show ?thesis by (rule conjI)
qed

lemma dispatchOnPlayer_mute:
  "\<not> uri_falsy (controlsOf p) \<Longrightarrow> p_player p \<Longrightarrow> outcome (SetVolume (Num 0)) = Returns \<Longrightarrow>
   dispatchOnPlayer outcome (u ''mute'') p = (True, p\<lparr>p_volume := 0\<rparr>)"
  by (simp add: dispatchOnPlayer_def executeCommand_cases commandCall_mute controlsOf_def)

lemma dispatchOnPlayer_unmute:
  "\<not> uri_falsy (controlsOf p) \<Longrightarrow> p_player p \<Longrightarrow>
   outcome (SetVolume (Num (if p_volume p > 0 then p_volume p else 1))) = Returns \<Longrightarrow>
   dispatchOnPlayer outcome (u ''unmute'') p =
     (True, p\<lparr>p_volume := min 1 (max 0 (if p_volume p > 0 then p_volume p else 1))\<rparr>)"
  by (auto simp: dispatchOnPlayer_def executeCommand_cases commandCall_unmute controlsOf_def
        volume_or_zero_def uri_falsy_def)

text \<open>
  Claim C1, as amended. \<open>mute\<close> calls \<open>setVolume(0)\<close>, and \<open>unmute\<close> calls
  \<open>setVolume\<close> with the volume that \<open>videoControls\<close> holds when \<open>unmute\<close> is
  dispatched if that is above 0, and with 1 otherwise. No volume is remembered across
  \<open>mute\<close>: on the player, \<open>mute\<close> sets the volume to 0 and \<open>unmute\<close> right after
  \<open>mute\<close> sets it to 1, whatever it was before \<open>mute\<close>.
\<close>

theorem unmute_uses_current_volume:
  "(\<not> uri_falsy vc \<and> player vc \<and> volume vc = Some (Num v)
      \<longrightarrow> snd (executeCommand outcome (u ''mute'') vc) = [SetVolume (Num 0)]
          \<and> snd (executeCommand outcome (u ''unmute'') vc)
              = [SetVolume (Num (if v > 0 then v else 1))])
   \<and> (\<not> uri_falsy (controlsOf p) \<and> p_player p
        \<and> outcome (SetVolume (Num 0)) = Returns \<and> outcome (SetVolume (Num 1)) = Returns
      \<longrightarrow> p_volume (snd (dispatchOnPlayer outcome (u ''mute'') p)) = 0
          \<and> p_volume (snd (dispatchOnPlayer outcome (u ''unmute'')
                             (snd (dispatchOnPlayer outcome (u ''mute'') p)))) = 1)"
proof (intro conjI impI)
  assume a: "\<not> uri_falsy vc \<and> player vc \<and> volume vc = Some (Num v)"
  then show "snd (executeCommand outcome (u ''mute'') vc) = [SetVolume (Num 0)]"
    by (simp add: executeCommand_cases commandCall_mute)
  from a show "snd (executeCommand outcome (u ''unmute'') vc)
              = [SetVolume (Num (if v > 0 then v else 1))]"
    by (simp add: executeCommand_cases commandCall_unmute volume_or_zero_def)
next
  assume a: "\<not> uri_falsy (controlsOf p) \<and> p_player p
        \<and> outcome (SetVolume (Num 0)) = Returns \<and> outcome (SetVolume (Num 1)) = Returns"
  then have m: "dispatchOnPlayer outcome (u ''mute'') p = (True, p\<lparr>p_volume := 0\<rparr>)"
    by (simp add: dispatchOnPlayer_mute)
  then show "p_volume (snd (dispatchOnPlayer outcome (u ''mute'') p)) = 0" by simp
  have "dispatchOnPlayer outcome (u ''unmute'') (p\<lparr>p_volume := 0\<rparr>)
          = (True, p\<lparr>p_volume := 1\<rparr>)"
    using a by (simp add: dispatchOnPlayer_unmute)
  with m show "p_volume (snd (dispatchOnPlayer outcome (u ''unmute'')
                             (snd (dispatchOnPlayer outcome (u ''mute'') p)))) = 1"
    by simp
qed

theorem unmute_uses_current_volume_witness:
  "snd (executeCommand (\<lambda>c. Returns) (u ''unmute'')
          \<lparr>uri = Some (u ''a.mp4''), player = True, volume = Some (Num (1 / 2))\<rparr>)
     = [SetVolume (Num (1 / 2))]
   \<and> p_volume (snd (dispatchOnPlayer (\<lambda>c. Returns) (u ''unmute'')
        (snd (dispatchOnPlayer (\<lambda>c. Returns) (u ''mute'')
          \<lparr>p_uri = Some (u ''a.mp4''), p_player = True, p_volume = 1 / 2, p_isFullscreen = False\<rparr>)))) = 1"
proof -
  let ?vc = "\<lparr>uri = Some (u ''a.mp4''), player = True, volume = Some (Num (1 / 2))\<rparr>"
  let ?p = "\<lparr>p_uri = Some (u ''a.mp4''), p_player = True, p_volume = 1 / 2, p_isFullscreen = False\<rparr>"
  have "\<not> uri_falsy ?vc" by (simp add: uri_falsy_def u_def)
  moreover have "\<not> uri_falsy (controlsOf ?p)" by (simp add: uri_falsy_def controlsOf_def u_def)
  ultimately show ?thesis
    using unmute_uses_current_volume [of ?vc "1 / 2" "\<lambda>c. Returns" ?p]
    by simp
qed

text \<open>
  The claim as stated fails: with volume 0.5 before \<open>mute\<close>, \<open>unmute\<close> after
  \<open>mute\<close> leaves the volume at 1, not at 0.5.
\<close>

theorem unmute_after_mute_counterexample:
  "p_volume \<lparr>p_uri = Some (u ''a.mp4''), p_player = True, p_volume = 1 / 2, p_isFullscreen = False\<rparr> > 0
   \<and> snd (dispatchOnPlayer (\<lambda>c. Returns) (u ''unmute'')
        (snd (dispatchOnPlayer (\<lambda>c. Returns) (u ''mute'')
          \<lparr>p_uri = Some (u ''a.mp4''), p_player = True, p_volume = 1 / 2, p_isFullscreen = False\<rparr>)))
     = \<lparr>p_uri = Some (u ''a.mp4''), p_player = True, p_volume = 1, p_isFullscreen = False\<rparr>"
proof -
  have ne: "u ''a.mp4'' \<noteq> []" by (simp add: u_def)
  show ?thesis
    by (simp add: dispatchOnPlayer_def executeCommand_cases commandCall_mute commandCall_unmute
          controlsOf_def uri_falsy_def volume_or_zero_def ne)
qed

section \<open>The resolver\<close>

lemma js_includes_iff: "js_includes s t \<longleftrightarrow> (\<exists>p q. s = p @ t @ q)"
proof (induction s)
  case Nil
  then show ?case by simp
next
  case (Cons d s)
  show ?case
  proof
    assume "js_includes (d # s) t"
    then consider "js_startsWith (d # s) t" | "js_includes s t" by auto
    then show "\<exists>p q. d # s = p @ t @ q"
    proof cases
      case 1
      then obtain q where "d # s = t @ q" by (auto simp: js_startsWith_iff)
      then have "d # s = [] @ t @ q" by simp
      then show ?thesis by blast
    next
      case 2
      then obtain p q where "s = p @ t @ q" using Cons.IH by blast
      then have "d # s = (d # p) @ t @ q" by simp
      then show ?thesis by blast
    qed
  next
    assume "\<exists>p q. d # s = p @ t @ q"
    then obtain p q where e: "d # s = p @ t @ q" by blast
    show "js_includes (d # s) t"
    proof (cases p)
      case Nil
      with e have "js_startsWith (d # s) t" by (auto simp: js_startsWith_iff)
      then show ?thesis by simp
    next
      case (Cons a p')
      with e have "s = p' @ t @ q" by simp
      then have "js_includes s t" using Cons.IH by blast
      then show ?thesis by simp
    qed
  qed
qed

lemma example_uri_loaded: "\<not> uri_falsy \<lparr>uri = Some (u ''a.mp4''), player = b, volume = v\<rparr>"
  by (simp add: uri_falsy_def u_def)

lemma js_includes_Nil [simp]: "js_includes s []"
  by (induction s) auto

lemma js_includes_in_Nil: "js_includes [] t \<longleftrightarrow> t = []"
  by simp

lemma commands_triggers_nonempty:
  "list_all (\<lambda>(action, triggers). list_all (\<lambda>t. t \<noteq> []) triggers) commands"
  by (simp add: commands_def u_def)

lemma commands_trigger_nonempty:
  assumes "i < length commands" "commands ! i = (action, triggers)" "trigger \<in> set triggers"
  shows "trigger \<noteq> []"
proof -
  have "(action, triggers) \<in> set commands" using assms(1,2) by (metis nth_mem)
  then have "list_all (\<lambda>t. t \<noteq> []) triggers"
    using commands_triggers_nonempty by (auto simp: list_all_iff)
  then show ?thesis using assms(3) by (auto simp: list_all_iff)
qed

lemma saveCustomCommand_empty: "saveCustomCommand [] commandId trigger = [(commandId, trigger)]"
  by (simp add: saveCustomCommand_def)

lemma processVoiceCommand_custom:
  assumes "txt \<noteq> []"
      and "find (\<lambda>(commandId, trigger). js_includes (js_trim (toLowerCase txt)) (toLowerCase trigger))
             customCommands = Some (commandId, trigger)"
  shows "processVoiceCommand toLowerCase outcome customCommands txt vc
           = executeCommand outcome commandId vc"
  using assms by (simp add: processVoiceCommand_def Let_def)

lemma processVoiceCommand_builtin:
  assumes "txt \<noteq> []"
      and "find (\<lambda>(commandId, trigger). js_includes (js_trim (toLowerCase txt)) (toLowerCase trigger))
             customCommands = None"
      and "find (\<lambda>(action, triggers).
                   list_ex (\<lambda>trigger. js_includes (js_trim (toLowerCase txt)) (toLowerCase trigger)) triggers)
             commands = Some (action, triggers)"
  shows "processVoiceCommand toLowerCase outcome customCommands txt vc
           = executeCommand outcome action vc"
  using assms by (simp add: processVoiceCommand_def Let_def)

text \<open>
  Claim C3, as amended. For every non-empty text and every custom-commands mapping: if
  the lower-cased trigger of the entry at position \<open>i\<close> of the mapping (in the order
  of \<open>Object.entries\<close>) is included in the lower-cased, trimmed text, and the trigger of
  no entry before it is, then \<open>processVoiceCommand\<close> executes the \<open>commandId\<close> of that
  entry, whatever the built-in table holds for the text. The empty text is refused
  before any entry is looked at.
\<close>

theorem custom_override_takes_precedence:
  assumes "txt \<noteq> []"
      and "i < length customCommands"
      and "customCommands ! i = (commandId, trigger)"
      and "js_includes (js_trim (toLowerCase txt)) (toLowerCase trigger)"
      and "\<forall>j<i. \<not> js_includes (js_trim (toLowerCase txt)) (toLowerCase (snd (customCommands ! j)))"
  shows "processVoiceCommand toLowerCase outcome customCommands txt vc
           = executeCommand outcome commandId vc
         \<and> processVoiceCommand toLowerCase outcome customCommands [] vc = (False, [])"
proof -
  let ?P = "\<lambda>(commandId, trigger). js_includes (js_trim (toLowerCase txt)) (toLowerCase trigger)"
  have "?P (customCommands ! i)" using assms(3,4) by simp
  moreover have "\<forall>j<i. \<not> ?P (customCommands ! j)"
    using assms(5) by (auto simp: case_prod_beta)
  ultimately have "find ?P customCommands = Some (customCommands ! i)"
    using assms(2) by (intro find_first_index) auto
  then have "processVoiceCommand toLowerCase outcome customCommands txt vc
               = executeCommand outcome commandId vc"
    using assms(1,3) by (simp add: processVoiceCommand_custom)
  moreover have "processVoiceCommand toLowerCase outcome customCommands [] vc = (False, [])"
    by (simp add: processVoiceCommand_def)
  ultimately show ?thesis by simp
qed

theorem custom_override_takes_precedence_witness:
  "u ''Play'' \<noteq> []
   \<and> [(u ''favorite'', u ''xyz''), (u ''pause'', u ''play'')] ! 1 = (u ''pause'', u ''play'')
   \<and> js_includes (js_trim (asciiLowerCase (u ''Play''))) (asciiLowerCase (u ''play''))
   \<and> \<not> js_includes (js_trim (asciiLowerCase (u ''Play''))) (asciiLowerCase (u ''xyz''))
   \<and> processVoiceCommand asciiLowerCase (\<lambda>c. Returns)
        [(u ''favorite'', u ''xyz''), (u ''pause'', u ''play'')] (u ''Play'')
        \<lparr>uri = Some (u ''a.mp4''), player = True, volume = None\<rparr>
      = (True, [Pause])"
proof -
  let ?cc = "[(u ''favorite'', u ''xyz''), (u ''pause'', u ''play'')]"
  let ?vc = "\<lparr>uri = Some (u ''a.mp4''), player = True, volume = None\<rparr>"
  have 1: "u ''Play'' \<noteq> []" by (simp add: u_def)
  have 2: "(1::nat) < length ?cc" by simp
  have 3: "?cc ! 1 = (u ''pause'', u ''play'')" by simp
  have 4: "js_includes (js_trim (asciiLowerCase (u ''Play''))) (asciiLowerCase (u ''play''))"
    by (simp add: u_def asciiLowerCase_def js_trim_def js_isWhiteSpace_def)
  have 5: "\<not> js_includes (js_trim (asciiLowerCase (u ''Play''))) (asciiLowerCase (u ''xyz''))"
    by (simp add: u_def asciiLowerCase_def js_trim_def js_isWhiteSpace_def)
  have 6: "\<forall>j<1. \<not> js_includes (js_trim (asciiLowerCase (u ''Play'')))
                      (asciiLowerCase (snd (?cc ! j)))"
    using 5 by simp
  have "processVoiceCommand asciiLowerCase (\<lambda>c. Returns) ?cc (u ''Play'') ?vc
          = executeCommand (\<lambda>c. Returns) (u ''pause'') ?vc"
    using custom_override_takes_precedence [OF 1 2 3 4 6] by simp
  moreover have "executeCommand (\<lambda>c. Returns) (u ''pause'') ?vc = (True, [Pause])"
    by (simp add: executeCommand_cases commandCall_pause example_uri_loaded)
  ultimately show ?thesis using 1 3 4 5 by simp
qed

text \<open>
  The claim as stated fails at the empty text: the override phrase \<open>""\<close> of
  \<open>play\<close> occurs in it, but \<open>processVoiceCommand\<close> returns \<open>false\<close> without a
  call, where executing \<open>play\<close> returns \<open>true\<close> with a call of \<open>play()\<close>.
\<close>

theorem empty_transcript_counterexample:
  "js_includes (js_trim (asciiLowerCase [])) (asciiLowerCase [])
   \<and> processVoiceCommand asciiLowerCase (\<lambda>c. Returns) [(u ''play'', [])] []
        \<lparr>uri = Some (u ''a.mp4''), player = True, volume = None\<rparr> = (False, [])
   \<and> executeCommand (\<lambda>c. Returns) (u ''play'')
        \<lparr>uri = Some (u ''a.mp4''), player = True, volume = None\<rparr> = (True, [Play])"
proof -
  have 1: "js_includes (js_trim (asciiLowerCase [])) (asciiLowerCase [])"
    by (simp add: asciiLowerCase_def js_trim_def)
  have 2: "processVoiceCommand asciiLowerCase (\<lambda>c. Returns) [(u ''play'', [])] []
        \<lparr>uri = Some (u ''a.mp4''), player = True, volume = None\<rparr> = (False, [])"
    by (simp add: processVoiceCommand_def)
  have 3: "executeCommand (\<lambda>c. Returns) (u ''play'')
        \<lparr>uri = Some (u ''a.mp4''), player = True, volume = None\<rparr> = (True, [Play])"
    by (simp add: executeCommand_cases commandCall_play example_uri_loaded)
  from 1 2 3 show ?thesis by blast
qed


text \<open>
  Claim C4. For every text that no custom command matches: if the lower-cased, trimmed
  text includes a trigger phrase of the row \<open>action\<close> of the built-in table, and no
  trigger phrase of an earlier row, then \<open>processVoiceCommand\<close> executes \<open>action\<close>.
  The phrases of all locales are in the one table and \<open>processVoiceCommand\<close> takes no
  locale. (\<open>toLowerCase\<close> maps exactly the empty string to the empty string.)
\<close>

theorem builtin_phrase_resolves_in_table_order:
  assumes lower: "\<forall>s. (toLowerCase s = []) = (s = [])"
      and nocustom: "find (\<lambda>(commandId, trigger).
                        js_includes (js_trim (toLowerCase txt)) (toLowerCase trigger))
                      customCommands = None"
      and i: "i < length commands"
      and row: "commands ! i = (action, triggers)"
      and trig: "trigger \<in> set triggers"
      and incl: "js_includes (js_trim (toLowerCase txt)) (toLowerCase trigger)"
      and earlier: "\<forall>j<i. \<forall>t \<in> set (snd (commands ! j)).
                      \<not> js_includes (js_trim (toLowerCase txt)) (toLowerCase t)"
  shows "processVoiceCommand toLowerCase outcome customCommands txt vc
           = executeCommand outcome action vc"
proof -
  let ?c = "js_trim (toLowerCase txt)"
  let ?P = "\<lambda>(action, triggers). list_ex (\<lambda>t. js_includes ?c (toLowerCase t)) triggers"
  have "trigger \<noteq> []" using commands_trigger_nonempty [OF i row trig] .
  then have "toLowerCase trigger \<noteq> []" using lower by simp
  have ne: "txt \<noteq> []"
  proof
    assume "txt = []"
    moreover have "toLowerCase [] = []" using lower by simp
    ultimately have "?c = []" by (simp add: js_trim_def)
    with incl have "toLowerCase trigger = []" by simp
    with \<open>toLowerCase trigger \<noteq> []\<close> show False by simp
  qed
  have "?P (commands ! i)" using row trig incl by (auto simp: list_ex_iff)
  moreover have "\<forall>j<i. \<not> ?P (commands ! j)"
    using earlier by (auto simp: case_prod_beta list_ex_iff)
  ultimately have "find ?P commands = Some (commands ! i)"
    using i by (intro find_first_index) auto
  then show ?thesis
    using ne nocustom row by (simp add: processVoiceCommand_builtin)
qed

lemma asciiLowerCase_empty_iff: "\<forall>s. (asciiLowerCase s = []) = (s = [])"
  by (simp add: asciiLowerCase_def)

lemma all_less_take:
  assumes "i \<le> length xs" and "list_all Q (take i xs)"
  shows "\<forall>j<i. Q (xs ! j)"
proof (intro allI impI)
  fix j
  assume "j < i"
  then have "j < length (take i xs)" using assms(1) by simp
  then have "take i xs ! j \<in> set (take i xs)" by (rule nth_mem)
  then have "Q (take i xs ! j)" using assms(2) by (simp add: list_all_iff)
  then show "Q (xs ! j)" using \<open>j < i\<close> by simp
qed

lemma length_commands: "length commands = 23"
  by (simp add: commands_def)

theorem builtin_phrase_resolves_in_table_order_witness:
  "processVoiceCommand asciiLowerCase (\<lambda>c. Returns) [(u ''play'', u ''go'')] (u ''Pause the video'')
        \<lparr>uri = Some (u ''a.mp4''), player = True, volume = None\<rparr> = (True, [Pause])
   \<and> processVoiceCommand asciiLowerCase (\<lambda>c. Returns) [] [0x97F3, 0x91CF, 0x8ABF, 0x9AD8]
        \<lparr>uri = Some (u ''a.mp4''), player = True, volume = Some (Num (1 / 2))\<rparr>
      = (True, [SetVolume (Num (3 / 5))])"
proof -
  let ?vc = "\<lparr>uri = Some (u ''a.mp4''), player = True, volume = None\<rparr>"
  let ?vc2 = "\<lparr>uri = Some (u ''a.mp4''), player = True, volume = Some (Num (1 / 2))\<rparr>"
  let ?t = "u ''Pause the video''"
  let ?t2 = "[0x97F3, 0x91CF, 0x8ABF, 0x9AD8] :: jsstring"
  have c: "js_trim (asciiLowerCase ?t) = u ''pause the video''"
    by (simp add: u_def asciiLowerCase_def js_trim_def js_isWhiteSpace_def)
  have c2: "js_trim (asciiLowerCase ?t2) = ?t2"
    by (simp add: asciiLowerCase_def js_trim_def js_isWhiteSpace_def)
  have a1: "find (\<lambda>(commandId, trigger). js_includes (js_trim (asciiLowerCase ?t)) (asciiLowerCase trigger))
              [(u ''play'', u ''go'')] = None"
    unfolding c by (simp add: u_def asciiLowerCase_def)
  have a2: "(1::nat) < length commands" by (simp add: length_commands)
  have a3: "commands ! 1 = (u ''pause'', snd (commands ! 1))"
    by (simp add: commands_def)
  have a4: "u ''pause'' \<in> set (snd (commands ! 1))"
    by (simp add: commands_def)
  have a5: "js_includes (js_trim (asciiLowerCase ?t)) (asciiLowerCase (u ''pause''))"
    unfolding c by (simp add: u_def asciiLowerCase_def)
  have "list_all (\<lambda>row. \<forall>t \<in> set (snd row). \<not> js_includes (u ''pause the video'') (asciiLowerCase t))
          (take 1 commands)"
    by (simp add: commands_def u_def asciiLowerCase_def)
  then have a6: "\<forall>j<1. \<forall>t \<in> set (snd (commands ! j)).
                   \<not> js_includes (js_trim (asciiLowerCase ?t)) (asciiLowerCase t)"
    unfolding c by (intro all_less_take) (simp_all add: length_commands)
  have r1: "processVoiceCommand asciiLowerCase (\<lambda>c. Returns) [(u ''play'', u ''go'')] ?t ?vc
              = executeCommand (\<lambda>c. Returns) (u ''pause'') ?vc"
    using builtin_phrase_resolves_in_table_order
            [OF asciiLowerCase_empty_iff a1 a2 a3 a4 a5 a6] .
  have b1: "find (\<lambda>(commandId, trigger). js_includes (js_trim (asciiLowerCase ?t2)) (asciiLowerCase trigger))
              [] = None"
    by simp
  have b2: "(9::nat) < length commands" by (simp add: length_commands)
  have b3: "commands ! 9 = (u ''volumeUp'', snd (commands ! 9))"
    by (simp add: commands_def)
  have b4: "?t2 \<in> set (snd (commands ! 9))"
    by (simp add: commands_def)
  have b5: "js_includes (js_trim (asciiLowerCase ?t2)) (asciiLowerCase ?t2)"
    unfolding c2 by (simp add: asciiLowerCase_def)
  have "list_all (\<lambda>row. \<forall>t \<in> set (snd row). \<not> js_includes ?t2 (asciiLowerCase t))
          (take 9 commands)"
    by (simp add: commands_def u_def asciiLowerCase_def)
  then have b6: "\<forall>j<9. \<forall>t \<in> set (snd (commands ! j)).
                   \<not> js_includes (js_trim (asciiLowerCase ?t2)) (asciiLowerCase t)"
    unfolding c2 by (intro all_less_take) (simp_all add: length_commands)
  have r2: "processVoiceCommand asciiLowerCase (\<lambda>c. Returns) [] ?t2 ?vc2
              = executeCommand (\<lambda>c. Returns) (u ''volumeUp'') ?vc2"
    using builtin_phrase_resolves_in_table_order
            [OF asciiLowerCase_empty_iff b1 b2 b3 b4 b5 b6] .
  have e1: "executeCommand (\<lambda>c. Returns) (u ''pause'') ?vc = (True, [Pause])"
    by (simp add: executeCommand_cases commandCall_pause example_uri_loaded)
  have "commandCall (u ''volumeUp'') ?vc2 = Some (SetVolume (Num (3 / 5)))"
    by (simp add: commandCall_def u_def js_plus_def math_min_def)
  then have e2: "executeCommand (\<lambda>c. Returns) (u ''volumeUp'') ?vc2 = (True, [SetVolume (Num (3 / 5))])"
    by (simp add: executeCommand_cases example_uri_loaded)
  from r1 r2 e1 e2 show ?thesis by simp
qed

text \<open>
  Claim C9. The \<open>default\<close> branch of \<open>executeCommand\<close> is reachable through
  \<open>saveCustomCommand\<close> and \<open>processVoiceCommand\<close>. \<open>saveCustomCommand\<close> accepts any
  \<open>commandId\<close>; after saving it with a trigger, a non-empty text that includes the
  trigger resolves to that \<open>commandId\<close>, and \<open>processVoiceCommand\<close> returns what
  \<open>executeCommand\<close> returns for it, whatever the \<open>commandId\<close> is. So for a
  \<open>commandId\<close> that is none of the case labels (media loaded and player present, so
  that the two earlier refusals do not apply) the \<open>switch\<close> takes the \<open>default\<close>
  branch, and \<open>processVoiceCommand\<close> returns \<open>false\<close> with no call on the player.
\<close>

theorem unknown_override_reaches_default_branch:
  assumes "txt \<noteq> []"
      and "js_includes (js_trim (toLowerCase txt)) (toLowerCase trigger)"
  shows "find (\<lambda>(commandId, trigger). js_includes (js_trim (toLowerCase txt)) (toLowerCase trigger))
           (saveCustomCommand [] commandId trigger) = Some (commandId, trigger)
         \<and> processVoiceCommand toLowerCase outcome (saveCustomCommand [] commandId trigger) txt vc
             = executeCommand outcome commandId vc
         \<and> (commandId \<notin> set knownCommands \<and> \<not> uri_falsy vc \<and> player vc \<longrightarrow>
               commandCall commandId vc = None
               \<and> executeCommand_try outcome commandId vc = (Inr False, [])
               \<and> executeCommand outcome commandId vc = (False, [])
               \<and> processVoiceCommand toLowerCase outcome
                    (saveCustomCommand [] commandId trigger) txt vc = (False, []))"
proof -
  have f: "find (\<lambda>(commandId, trigger). js_includes (js_trim (toLowerCase txt)) (toLowerCase trigger))
           (saveCustomCommand [] commandId trigger) = Some (commandId, trigger)"
    using assms(2) by (simp add: saveCustomCommand_empty)
  have p: "processVoiceCommand toLowerCase outcome (saveCustomCommand [] commandId trigger) txt vc
          = executeCommand outcome commandId vc"
    using assms(1) f by (rule processVoiceCommand_custom)
  have d: "commandCall commandId vc = None
               \<and> executeCommand_try outcome commandId vc = (Inr False, [])
               \<and> executeCommand outcome commandId vc = (False, [])
               \<and> processVoiceCommand toLowerCase outcome
                    (saveCustomCommand [] commandId trigger) txt vc = (False, [])"
    if u: "commandId \<notin> set knownCommands \<and> \<not> uri_falsy vc \<and> player vc"
  proof -
    have n: "commandCall commandId vc = None"
      using u by (simp add: commandCall_None_iff)
    have t: "executeCommand_try outcome commandId vc = (Inr False, [])"
      using n u by (simp add: executeCommand_try_def)
    have e: "executeCommand outcome commandId vc = (False, [])"
      using n by (simp add: executeCommand_cases)
    from n t e p show ?thesis by simp
  qed
  from f p d show ?thesis by blast
qed

theorem unknown_override_reaches_default_branch_witness:
  "u ''dance'' \<notin> set knownCommands
   \<and> saveCustomCommand [] (u ''dance'') (u ''zzz'') = [(u ''dance'', u ''zzz'')]
   \<and> js_includes (js_trim (asciiLowerCase (u ''zzz''))) (asciiLowerCase (u ''zzz''))
   \<and> commandCall (u ''dance'') \<lparr>uri = Some (u ''a.mp4''), player = True, volume = None\<rparr> = None
   \<and> processVoiceCommand asciiLowerCase (\<lambda>c. Returns) (saveCustomCommand [] (u ''dance'') (u ''zzz''))
        (u ''zzz'') \<lparr>uri = Some (u ''a.mp4''), player = True, volume = None\<rparr> = (False, [])
   \<and> processVoiceCommand asciiLowerCase (\<lambda>c. Returns) (saveCustomCommand [] (u ''play'') (u ''zzz''))
        (u ''zzz'') \<lparr>uri = Some (u ''a.mp4''), player = True, volume = None\<rparr> = (True, [Play])"
proof -
  let ?vc = "\<lparr>uri = Some (u ''a.mp4''), player = True, volume = None\<rparr>"
  have 1: "u ''dance'' \<notin> set knownCommands" by (simp add: knownCommands_def u_def)
  have 2: "u ''zzz'' \<noteq> []" by (simp add: u_def)
  have 3: "js_includes (js_trim (asciiLowerCase (u ''zzz''))) (asciiLowerCase (u ''zzz''))"
    by (simp add: u_def asciiLowerCase_def js_trim_def js_isWhiteSpace_def)
  have 4: "\<not> uri_falsy ?vc" by (rule example_uri_loaded)
  have 5: "player ?vc" by simp
  note d = unknown_override_reaches_default_branch
             [of "u ''zzz''" asciiLowerCase "u ''zzz''" "u ''dance''" "\<lambda>c. Returns" ?vc, OF 2 3]
  note k = unknown_override_reaches_default_branch
             [of "u ''zzz''" asciiLowerCase "u ''zzz''" "u ''play''" "\<lambda>c. Returns" ?vc, OF 2 3]
  have 6: "commandCall (u ''dance'') ?vc = None
           \<and> processVoiceCommand asciiLowerCase (\<lambda>c. Returns)
                (saveCustomCommand [] (u ''dance'') (u ''zzz'')) (u ''zzz'') ?vc = (False, [])"
    using d 1 4 5 by blast
  have "executeCommand (\<lambda>c. Returns) (u ''play'') ?vc = (True, [Play])"
    using 4 by (simp add: executeCommand_cases commandCall_play)
  with k have 7: "processVoiceCommand asciiLowerCase (\<lambda>c. Returns)
                (saveCustomCommand [] (u ''play'') (u ''zzz'')) (u ''zzz'') ?vc = (True, [Play])"
    by simp
  have 8: "saveCustomCommand [] (u ''dance'') (u ''zzz'') = [(u ''dance'', u ''zzz'')]"
    by (rule saveCustomCommand_empty)
  from 1 8 3 6 7 show ?thesis by blast
qed

section \<open>The session controller\<close>

lemma timers_tracked_None:
  "timers_tracked h \<Longrightarrow> restartTimeoutRef h = None \<Longrightarrow> timers h = []"
  by (cases "timers h") (auto simp: timers_tracked_def)

lemma timers_tracked_clear:
  "timers_tracked h \<Longrightarrow> restartTimeoutRef h = Some tid \<Longrightarrow> timers (clearTimeout tid h) = []"
  by (auto simp: timers_tracked_def clearTimeout_def list_all_iff filter_empty_conv)

lemma timers_tracked_empty: "timers h = [] \<Longrightarrow> timers_tracked h"
  by (simp add: timers_tracked_def)

lemma timers_tracked_clearTimeout: "timers_tracked h \<Longrightarrow> timers_tracked (clearTimeout tid h)"
  by (auto simp: timers_tracked_def clearTimeout_def list_all_iff)

lemma timers_tracked_setTimeout: "timers h = [] \<Longrightarrow> timers_tracked (setTimeout d cb h)"
  by (simp add: timers_tracked_def setTimeout_def)

lemma clearTimeout_fields [simp]:
  "state (clearTimeout tid h) = state h"
  "restartTimeoutRef (clearTimeout tid h) = restartTimeoutRef h"
  "persistentRecognitionRef (clearTimeout tid h) = persistentRecognitionRef h"
  "recognitionRef (clearTimeout tid h) = recognitionRef h"
  "mediaRecorderRef (clearTimeout tid h) = mediaRecorderRef h"
  "nextTimer (clearTimeout tid h) = nextTimer h"
  by (simp_all add: clearTimeout_def)

text \<open>After the two clean-up steps that open start and stop, no timer is pending.\<close>

lemma startPersistentListening_timers:
  assumes "timers_tracked h"
  shows "timers_tracked (fst (startPersistentListening e h))"
proof (cases "restartTimeoutRef h")
  case None
  then have "timers h = []" using assms by (rule timers_tracked_None [rotated])
  then show ?thesis
    using None
    by (auto simp: startPersistentListening_def startPersistentFailed_def timers_tracked_def
          Let_def split: if_splits)
next
  case (Some tid)
  then have c: "timers (clearTimeout tid h) = []" using assms by (rule timers_tracked_clear [rotated])
  have c': "timers (clearTimeout tid (h\<lparr>persistentRecognitionRef := False\<rparr>)) = []"
    using c by (simp add: clearTimeout_def)
  show ?thesis
    using Some assms c c'
    by (auto simp: startPersistentListening_def startPersistentFailed_def timers_tracked_def
          Let_def split: if_splits)
qed

lemma stopPersistentListening_timers:
  assumes "timers_tracked h"
  shows "timers (fst (stopPersistentListening e h)) = []"
proof (cases "restartTimeoutRef h")
  case None
  then have "timers h = []" using assms by (rule timers_tracked_None [rotated])
  then show ?thesis
    using None by (auto simp: stopPersistentListening_def Let_def split: if_splits)
next
  case (Some tid)
  then have c: "timers (clearTimeout tid h) = []" using assms by (rule timers_tracked_clear [rotated])
  show ?thesis
    using Some c by (auto simp: stopPersistentListening_def Let_def split: if_splits)
qed

lemma persistentOnError_timers:
  assumes "timers_tracked h"
  shows "timers_tracked (fst (persistentOnError code h))"
proof (cases "code = u ''network''")
  case False
  then show ?thesis
    using assms by (auto simp: persistentOnError_def timers_tracked_def)
next
  case True
  have n: "u ''network'' \<noteq> u ''no-speech''" "u ''network'' \<noteq> u ''audio-capture''"
          "u ''network'' \<noteq> u ''not-allowed''"
    by (simp_all add: u_def)
  show ?thesis
  proof (cases "restartTimeoutRef h")
    case None
    then have "timers h = []" using assms by (rule timers_tracked_None [rotated])
    then show ?thesis
      using None True n by (simp add: persistentOnError_def timers_tracked_setTimeout)
  next
    case (Some tid)
    then have "timers (clearTimeout tid h) = []"
      using assms by (rule timers_tracked_clear [rotated])
    then show ?thesis
      using Some True n by (simp add: persistentOnError_def timers_tracked_setTimeout)
  qed
qed

lemma persistentOnEnd_timers:
  assumes "timers_tracked h"
  shows "timers_tracked (fst (persistentOnEnd h))"
proof (cases "restartTimeoutRef h")
  case None
  then have "timers h = []" using assms by (rule timers_tracked_None [rotated])
  then show ?thesis
    using None by (simp add: persistentOnEnd_def timers_tracked_setTimeout timers_tracked_empty)
next
  case (Some tid)
  then have "timers (clearTimeout tid h) = []"
    using assms by (rule timers_tracked_clear [rotated])
  then show ?thesis
    using Some by (simp add: persistentOnEnd_def timers_tracked_setTimeout timers_tracked_empty)
qed

lemma fireTimer_timers:
  assumes "timers_tracked h"
  shows "timers_tracked (fst (fireTimer e tid h))"
proof -
  have "timers_tracked (clearTimeout tid h)"
    using assms by (rule timers_tracked_clearTimeout)
  then have "timers_tracked (fst (startPersistentListening e (clearTimeout tid h)))"
    by (rule startPersistentListening_timers)
  with assms \<open>timers_tracked (clearTimeout tid h)\<close> show ?thesis
    by (auto simp: fireTimer_def Let_def split: option.splits timer_callback.splits)
qed

lemma togglePersistentMode_timers:
  assumes "timers_tracked h"
  shows "timers_tracked (fst (togglePersistentMode e h))"
proof -
  have 1: "timers_tracked (fst (stopPersistentListening e h))"
    using assms by (simp add: stopPersistentListening_timers timers_tracked_empty)
  have 2: "timers_tracked (fst (startPersistentListening e h))"
    using assms by (rule startPersistentListening_timers)
  show ?thesis
    using assms 1 2
    by (auto simp: togglePersistentMode_def timers_tracked_def split: prod.splits)
qed

lemma stopRecording_timers:
  "timers_tracked h \<Longrightarrow> timers_tracked (fst (stopRecording e lc h))"
  by (auto simp: stopRecording_def stopRecordingFailed_def timers_tracked_def Let_def
        split: stt_outcome.splits)

lemma startRecording_timers:
  "timers_tracked h \<Longrightarrow> timers_tracked (fst (startRecording e h))"
  by (auto simp: startRecording_def timers_tracked_def)

lemma toggleRecording_timers:
  assumes "timers_tracked h"
  shows "timers_tracked (fst (toggleRecording e lc h))"
proof (cases "isRecording (state h)")
  case True
  then show ?thesis using assms by (simp add: toggleRecording_def stopRecording_timers)
next
  case False
  then have "fst (toggleRecording e lc h) = fst (startRecording e h)"
    by (simp add: toggleRecording_def split: prod.splits)
  then show ?thesis using assms by (simp add: startRecording_timers)
qed

lemma pressVoiceButton_timers:
  "timers_tracked h \<Longrightarrow> timers_tracked (fst (pressVoiceButton e lc h))"
  by (simp add: pressVoiceButton_def toggleRecording_timers)

lemma reachable_timers_tracked: "reachable h \<Longrightarrow> timers_tracked h"
proof (induction rule: reachable.induct)
  case r_init
  show ?case by (simp add: initialHook_def timers_tracked_def)
next
  case (r_startPersistent h e)
  then show ?case by (simp add: startPersistentListening_timers)
next
  case (r_stopPersistent h e)
  then show ?case by (simp add: stopPersistentListening_timers timers_tracked_empty)
next
  case (r_togglePersistent h e)
  then show ?case by (simp add: togglePersistentMode_timers)
next
  case (r_onStart h)
  then show ?case by (simp add: persistentOnStart_def timers_tracked_def)
next
  case (r_onResult h lc results)
  then show ?case
    by (auto simp: persistentOnResult_def timers_tracked_def split: prod.splits)
next
  case (r_onError h code)
  then show ?case by (simp add: persistentOnError_timers)
next
  case (r_onEnd h)
  then show ?case by (simp add: persistentOnEnd_timers)
next
  case (r_fire h e tid)
  then show ?case by (simp add: fireTimer_timers)
next
  case (r_startRecording h e)
  then show ?case by (simp add: startRecording_timers)
next
  case (r_stopRecording h e lc)
  then show ?case by (simp add: stopRecording_timers)
next
  case (r_recognitionOnResult h lc transcript)
  then show ?case by (simp add: recognitionOnResult_def timers_tracked_def)
next
  case (r_recognitionOnError h e)
  then show ?case by (simp add: recognitionOnError_def timers_tracked_def)
next
  case (r_toggleRecording h e lc)
  then show ?case by (simp add: toggleRecording_timers)
next
  case (r_pressVoiceButton h e lc)
  then show ?case by (simp add: pressVoiceButton_timers)
qed

lemma fireTimer_not_pending: "timers h = [] \<Longrightarrow> fireTimer e tid h = (h, [])"
  by (simp add: fireTimer_def)

lemma stopPersistentListening_state:
  "state (fst (stopPersistentListening e h))
     = (state h)\<lparr>isListening := False, isPersistentMode := False, error := None\<rparr>"
  by (auto simp: stopPersistentListening_def Let_def split: option.splits)

text \<open>
  Claim C6. In every reachable state in which a restart timer is pending (the 500 ms
  timer set by \<open>onend\<close> or the 3000 ms timer set on a network error),
  \<open>stopPersistentListening\<close> clears that timer: no timer is pending afterwards,
  persistent mode is off, and the timer's firing after the stop does nothing; the state
  is unchanged and no external call is made, so no recognition session is started.
\<close>

theorem stop_cancels_pending_restart:
  assumes "reachable h" and "(tid, delay, cb) \<in> set (timers h)"
  shows "ClearTimeout tid \<in> set (snd (stopPersistentListening e h))
         \<and> timers (fst (stopPersistentListening e h)) = []
         \<and> \<not> isPersistentMode (state (fst (stopPersistentListening e h)))
         \<and> fireTimer e' tid (fst (stopPersistentListening e h))
             = (fst (stopPersistentListening e h), [])"
proof -
  have tt: "timers_tracked h" using assms(1) by (rule reachable_timers_tracked)
  then have ref: "restartTimeoutRef h = Some tid"
    using assms(2) by (auto simp: timers_tracked_def list_all_iff)
  have 1: "ClearTimeout tid \<in> set (snd (stopPersistentListening e h))"
    using ref by (auto simp: stopPersistentListening_def Let_def)
  have 2: "timers (fst (stopPersistentListening e h)) = []"
    using tt by (rule stopPersistentListening_timers)
  have 3: "\<not> isPersistentMode (state (fst (stopPersistentListening e h)))"
    by (simp add: stopPersistentListening_state)
  have 4: "fireTimer e' tid (fst (stopPersistentListening e h))
             = (fst (stopPersistentListening e h), [])"
    using 2 by (rule fireTimer_not_pending)
  from 1 2 3 4 show ?thesis by blast
qed

lemma listening_example:
  "persistentOnStart (fst (startPersistentListening webEnv initialHook))
     = \<lparr>state = \<lparr>isRecording = False, isProcessing = False, lastCommand = None, error = None,
                 isListening = True, isPersistentMode = True\<rparr>,
        recognitionRef = False, mediaRecorderRef = False, persistentRecognitionRef = True,
        restartTimeoutRef = None, timers = [], nextTimer = 1\<rparr>"
  by (simp add: startPersistentListening_def webEnv_def initialHook_def persistentOnStart_def)

lemma listening_example_reachable:
  "reachable (persistentOnStart (fst (startPersistentListening webEnv initialHook)))"
  by (intro r_onStart r_startPersistent r_init)

lemma network_is_no_other_code:
  "u ''network'' \<noteq> u ''no-speech''" "u ''network'' \<noteq> u ''audio-capture''"
  "u ''network'' \<noteq> u ''not-allowed''" "u ''network'' \<noteq> u ''aborted''"
  by (simp_all add: u_def)

lemma ended_example:
  "fst (persistentOnEnd (persistentOnStart (fst (startPersistentListening webEnv initialHook))))
     = \<lparr>state = \<lparr>isRecording = False, isProcessing = False, lastCommand = None, error = None,
                 isListening = True, isPersistentMode = True\<rparr>,
        recognitionRef = False, mediaRecorderRef = False, persistentRecognitionRef = True,
        restartTimeoutRef = Some 1,
        timers = [(1, 500, EndRestart \<lparr>isRecording = False, isProcessing = False,
                     lastCommand = None, error = None, isListening = True,
                     isPersistentMode = True\<rparr>)],
        nextTimer = 2\<rparr>"
  by (simp add: listening_example persistentOnEnd_def setTimeout_def)

lemma network_example:
  "fst (persistentOnError (u ''network'')
          (persistentOnStart (fst (startPersistentListening webEnv initialHook))))
     = \<lparr>state = \<lparr>isRecording = False, isProcessing = False, lastCommand = None, error = None,
                 isListening = True, isPersistentMode = True\<rparr>,
        recognitionRef = False, mediaRecorderRef = False, persistentRecognitionRef = True,
        restartTimeoutRef = Some 1, timers = [(1, 3000, NetworkRestart)], nextTimer = 2\<rparr>"
  by (simp add: listening_example persistentOnError_def setTimeout_def network_is_no_other_code)

text \<open>
  Two runs with a pending timer: a session that ended naturally, and a session with a
  network error.
\<close>

theorem stop_cancels_pending_restart_witness:
  "reachable (fst (persistentOnEnd (persistentOnStart (fst (startPersistentListening webEnv initialHook)))))
   \<and> map (\<lambda>(i, d, cb). (i, d))
        (timers (fst (persistentOnEnd (persistentOnStart (fst (startPersistentListening webEnv initialHook))))))
      = [(1, 500)]
   \<and> fireTimer webEnv 1
        (fst (stopPersistentListening webEnv
           (fst (persistentOnEnd (persistentOnStart (fst (startPersistentListening webEnv initialHook)))))))
      = (fst (stopPersistentListening webEnv
           (fst (persistentOnEnd (persistentOnStart (fst (startPersistentListening webEnv initialHook)))))), [])
   \<and> reachable (fst (persistentOnError (u ''network'')
          (persistentOnStart (fst (startPersistentListening webEnv initialHook)))))
   \<and> timers (fst (persistentOnError (u ''network'')
          (persistentOnStart (fst (startPersistentListening webEnv initialHook)))))
      = [(1, 3000, NetworkRestart)]
   \<and> fireTimer webEnv 1
        (fst (stopPersistentListening webEnv
           (fst (persistentOnError (u ''network'')
              (persistentOnStart (fst (startPersistentListening webEnv initialHook)))))))
      = (fst (stopPersistentListening webEnv
           (fst (persistentOnError (u ''network'')
              (persistentOnStart (fst (startPersistentListening webEnv initialHook)))))), [])"
proof -
  let ?l = "persistentOnStart (fst (startPersistentListening webEnv initialHook))"
  let ?h1 = "fst (persistentOnEnd ?l)"
  let ?h2 = "fst (persistentOnError (u ''network'') ?l)"
  let ?s = "\<lparr>isRecording = False, isProcessing = False, lastCommand = None, error = None,
              isListening = True, isPersistentMode = True\<rparr>"
  have r1: "reachable ?h1" by (intro r_onEnd listening_example_reachable)
  have r2: "reachable ?h2" by (intro r_onError listening_example_reachable)
  have t1: "timers ?h1 = [(1, 500, EndRestart ?s)]" by (simp add: ended_example)
  have t2: "timers ?h2 = [(1, 3000, NetworkRestart)]" by (simp add: network_example)
  have m1: "(1, 500, EndRestart ?s) \<in> set (timers ?h1)" unfolding t1 by simp
  have m2: "(1, 3000, NetworkRestart) \<in> set (timers ?h2)" unfolding t2 by simp
  have f1: "fireTimer webEnv 1 (fst (stopPersistentListening webEnv ?h1))
              = (fst (stopPersistentListening webEnv ?h1), [])"
    using stop_cancels_pending_restart [OF r1 m1, of webEnv webEnv] by blast
  have f2: "fireTimer webEnv 1 (fst (stopPersistentListening webEnv ?h2))
              = (fst (stopPersistentListening webEnv ?h2), [])"
    using stop_cancels_pending_restart [OF r2 m2, of webEnv webEnv] by blast
  have t1': "map (\<lambda>(i, d, cb). (i, d)) (timers ?h1) = [(1, 500)]" unfolding t1 by simp
  from r1 t1' f1 r2 t2 f2 show ?thesis by blast
qed

text \<open>
  What the two callbacks test when they run: the network timer reads the state of the
  moment, the timer of \<open>onend\<close> the state it captured when it was set.
\<close>

lemma networkRestart_callback_rechecks:
  "timers h = [(tid, d, NetworkRestart)] \<Longrightarrow> \<not> isPersistentMode (state h) \<Longrightarrow>
   fireTimer e tid h = (clearTimeout tid h, [])"
  by (simp add: fireTimer_def)

lemma endRestart_callback_tests_captured_state:
  "timers h = [(tid, d, EndRestart prev)] \<Longrightarrow> isPersistentMode prev \<Longrightarrow>
   fireTimer e tid h = startPersistentListening e (clearTimeout tid h)"
  by (simp add: fireTimer_def)

lemma persistentOnError_no_speech: "persistentOnError (u ''no-speech'') h = (h, [])"
  by (simp add: persistentOnError_def)

lemma persistentOnError_aborted: "persistentOnError (u ''aborted'') h = (h, [])"
  by (simp add: persistentOnError_def u_def)

lemma persistentOnError_audio_capture:
  "persistentOnError (u ''audio-capture'') h
     = (h\<lparr>state := (state h)\<lparr>error := Some (u ''Microphone access denied or not available''),
                               isListening := False, isPersistentMode := False\<rparr>\<rparr>, [])"
  by (simp add: persistentOnError_def u_def)

lemma persistentOnError_not_allowed:
  "persistentOnError (u ''not-allowed'') h
     = (h\<lparr>state := (state h)\<lparr>error := Some (u ''Microphone permission denied. Please allow microphone access.''),
                               isListening := False, isPersistentMode := False\<rparr>\<rparr>, [])"
  by (simp add: persistentOnError_def u_def)

lemma not_allowed_is_not_audio_capture: "u ''not-allowed'' \<noteq> u ''audio-capture''"
  by (simp add: u_def)

lemma persistentOnError_network_state:
  "state (fst (persistentOnError (u ''network'') h)) = state h"
  by (auto simp: persistentOnError_def network_is_no_other_code setTimeout_def
        split: option.splits)

lemma persistentOnError_network_timer:
  "SetTimeout (nextTimer h) 3000 \<in> set (snd (persistentOnError (u ''network'') h))"
  by (auto simp: persistentOnError_def network_is_no_other_code split: option.splits)

text \<open>
  Claim C5, as amended. For every error event of the persistent recognizer:
  \<open>no-speech\<close> and \<open>aborted\<close> change nothing and make no call; \<open>audio-capture\<close>
  and \<open>not-allowed\<close> (permission denied) set \<open>isPersistentMode\<close> and \<open>isListening\<close>
  to false and set an error message; \<open>network\<close> leaves the state as it is (no error is
  set, \<open>isListening\<close> is kept) and sets the 3000 ms restart timer; every other code
  sets the error to \<open>Speech recognition error: \<close> followed by the code and sets
  \<open>isListening\<close> to false, leaving \<open>isPersistentMode\<close> and the other fields as they
  are.
\<close>

theorem persistent_error_classification:
  "(code = u ''no-speech'' \<or> code = u ''aborted'' \<longrightarrow> persistentOnError code h = (h, []))
   \<and> (code = u ''audio-capture'' \<or> code = u ''not-allowed'' \<longrightarrow>
        \<not> isPersistentMode (state (fst (persistentOnError code h)))
        \<and> \<not> isListening (state (fst (persistentOnError code h)))
        \<and> error (state (fst (persistentOnError code h)))
            = Some (if code = u ''audio-capture''
                    then u ''Microphone access denied or not available''
                    else u ''Microphone permission denied. Please allow microphone access.''))
   \<and> (code = u ''network'' \<longrightarrow>
        state (fst (persistentOnError code h)) = state h
        \<and> SetTimeout (nextTimer h) 3000 \<in> set (snd (persistentOnError code h)))
   \<and> (code \<noteq> u ''no-speech'' \<and> code \<noteq> u ''aborted'' \<and> code \<noteq> u ''audio-capture''
        \<and> code \<noteq> u ''not-allowed'' \<and> code \<noteq> u ''network'' \<longrightarrow>
        persistentOnError code h
          = (h\<lparr>state := (state h)\<lparr>error := Some (u ''Speech recognition error: '' @ code),
                                    isListening := False\<rparr>\<rparr>, [])
        \<and> isPersistentMode (state (fst (persistentOnError code h))) = isPersistentMode (state h))"
proof (intro conjI impI)
  assume "code = u ''no-speech'' \<or> code = u ''aborted''"
  then show "persistentOnError code h = (h, [])"
    using persistentOnError_no_speech persistentOnError_aborted by blast
next
  assume a: "code = u ''audio-capture'' \<or> code = u ''not-allowed''"
  then consider "code = u ''audio-capture''" | "code = u ''not-allowed''" by blast
  then have "persistentOnError code h
     = (h\<lparr>state := (state h)\<lparr>error := Some (if code = u ''audio-capture''
                    then u ''Microphone access denied or not available''
                    else u ''Microphone permission denied. Please allow microphone access.''),
                               isListening := False, isPersistentMode := False\<rparr>\<rparr>, [])"
  proof cases
    case 1
    then show ?thesis by (simp add: persistentOnError_audio_capture)
  next
    case 2
    then show ?thesis
      by (simp add: persistentOnError_not_allowed not_allowed_is_not_audio_capture)
  qed
  then have s: "state (fst (persistentOnError code h))
     = (state h)\<lparr>error := Some (if code = u ''audio-capture''
                    then u ''Microphone access denied or not available''
                    else u ''Microphone permission denied. Please allow microphone access.''),
                               isListening := False, isPersistentMode := False\<rparr>"
    by simp
  show "\<not> isPersistentMode (state (fst (persistentOnError code h)))"
    unfolding s by simp
  show "\<not> isListening (state (fst (persistentOnError code h)))"
    unfolding s by simp
  show "error (state (fst (persistentOnError code h)))
            = Some (if code = u ''audio-capture''
                    then u ''Microphone access denied or not available''
                    else u ''Microphone permission denied. Please allow microphone access.'')"
    unfolding s by simp
next
  assume "code = u ''network''"
  then show "state (fst (persistentOnError code h)) = state h"
    by (simp add: persistentOnError_network_state)
next
  assume "code = u ''network''"
  then show "SetTimeout (nextTimer h) 3000 \<in> set (snd (persistentOnError code h))"
    by (simp add: persistentOnError_network_timer)
next
  assume a: "code \<noteq> u ''no-speech'' \<and> code \<noteq> u ''aborted'' \<and> code \<noteq> u ''audio-capture''
        \<and> code \<noteq> u ''not-allowed'' \<and> code \<noteq> u ''network''"
  then show "persistentOnError code h
          = (h\<lparr>state := (state h)\<lparr>error := Some (u ''Speech recognition error: '' @ code),
                                    isListening := False\<rparr>\<rparr>, [])"
    by (simp add: persistentOnError_def)
  from a show "isPersistentMode (state (fst (persistentOnError code h))) = isPersistentMode (state h)"
    by (simp add: persistentOnError_def)
qed

theorem persistent_error_classification_witness:
  "persistentOnError (u ''no-speech'') (persistentOnStart (fst (startPersistentListening webEnv initialHook)))
     = (persistentOnStart (fst (startPersistentListening webEnv initialHook)), [])
   \<and> state (fst (persistentOnError (u ''not-allowed'')
         (persistentOnStart (fst (startPersistentListening webEnv initialHook)))))
     = \<lparr>isRecording = False, isProcessing = False, lastCommand = None,
        error = Some (u ''Microphone permission denied. Please allow microphone access.''),
        isListening = False, isPersistentMode = False\<rparr>
   \<and> state (fst (persistentOnError (u ''network'')
         (persistentOnStart (fst (startPersistentListening webEnv initialHook)))))
     = \<lparr>isRecording = False, isProcessing = False, lastCommand = None, error = None,
        isListening = True, isPersistentMode = True\<rparr>
   \<and> state (fst (persistentOnError (u ''bad-grammar'')
         (persistentOnStart (fst (startPersistentListening webEnv initialHook)))))
     = \<lparr>isRecording = False, isProcessing = False, lastCommand = None,
        error = Some (u ''Speech recognition error: bad-grammar''),
        isListening = False, isPersistentMode = True\<rparr>"
proof -
  let ?l = "persistentOnStart (fst (startPersistentListening webEnv initialHook))"
  have 1: "persistentOnError (u ''no-speech'') ?l = (?l, [])"
    using persistent_error_classification [of "u ''no-speech''" ?l] by blast
  have "\<not> isPersistentMode (state (fst (persistentOnError (u ''not-allowed'') ?l)))
        \<and> \<not> isListening (state (fst (persistentOnError (u ''not-allowed'') ?l)))
        \<and> error (state (fst (persistentOnError (u ''not-allowed'') ?l)))
            = Some (u ''Microphone permission denied. Please allow microphone access.'')"
    using persistent_error_classification [of "u ''not-allowed''" ?l]
    by (simp add: not_allowed_is_not_audio_capture)
  then have 2: "state (fst (persistentOnError (u ''not-allowed'') ?l))
     = \<lparr>isRecording = False, isProcessing = False, lastCommand = None,
        error = Some (u ''Microphone permission denied. Please allow microphone access.''),
        isListening = False, isPersistentMode = False\<rparr>"
    by (simp add: persistentOnError_not_allowed listening_example)
  have "state (fst (persistentOnError (u ''network'') ?l)) = state ?l"
    using persistent_error_classification [of "u ''network''" ?l] by blast
  then have 3: "state (fst (persistentOnError (u ''network'') ?l))
     = \<lparr>isRecording = False, isProcessing = False, lastCommand = None, error = None,
        isListening = True, isPersistentMode = True\<rparr>"
    by (simp add: listening_example)
  have o: "u ''bad-grammar'' \<noteq> u ''no-speech'' \<and> u ''bad-grammar'' \<noteq> u ''aborted''
           \<and> u ''bad-grammar'' \<noteq> u ''audio-capture'' \<and> u ''bad-grammar'' \<noteq> u ''not-allowed''
           \<and> u ''bad-grammar'' \<noteq> u ''network''"
    by (simp add: u_def)
  have "persistentOnError (u ''bad-grammar'') ?l
          = (?l\<lparr>state := (state ?l)\<lparr>error := Some (u ''Speech recognition error: '' @ u ''bad-grammar''),
                                    isListening := False\<rparr>\<rparr>, [])"
    using o persistent_error_classification [of "u ''bad-grammar''" ?l] by blast
  then have 4: "state (fst (persistentOnError (u ''bad-grammar'') ?l))
     = \<lparr>isRecording = False, isProcessing = False, lastCommand = None,
        error = Some (u ''Speech recognition error: bad-grammar''),
        isListening = False, isPersistentMode = True\<rparr>"
    by (simp add: listening_example u_def)
  from 1 2 3 4 show ?thesis by blast
qed

text \<open>
  The claim as stated fails for \<open>network\<close>, which is none of the four codes it names:
  in a listening session the error stays unset and \<open>isListening\<close> stays true.
\<close>

theorem network_error_counterexample:
  "u ''network'' \<noteq> u ''no-speech'' \<and> u ''network'' \<noteq> u ''aborted''
   \<and> u ''network'' \<noteq> u ''audio-capture'' \<and> u ''network'' \<noteq> u ''not-allowed''
   \<and> error (state (fst (persistentOnError (u ''network'')
        (persistentOnStart (fst (startPersistentListening webEnv initialHook)))))) = None
   \<and> isListening (state (fst (persistentOnError (u ''network'')
        (persistentOnStart (fst (startPersistentListening webEnv initialHook))))))"
  by (simp add: network_example network_is_no_other_code)

lemma stopPersistentListening_idle:
  assumes "\<not> persistentRecognitionRef h"
  shows "stopPersistentListening e h =
           (case restartTimeoutRef h of
              None \<Rightarrow> (h\<lparr>state := (state h)\<lparr>isListening := False, isPersistentMode := False,
                                          error := None\<rparr>\<rparr>, [])
            | Some tid \<Rightarrow>
                ((clearTimeout tid h)\<lparr>restartTimeoutRef := None,
                   state := (state h)\<lparr>isListening := False, isPersistentMode := False,
                                       error := None\<rparr>\<rparr>, [ClearTimeout tid]))"
  using assms by (simp add: stopPersistentListening_def split: option.splits)

lemma stopPersistentListening_twice:
  "state (fst (stopPersistentListening e2 (fst (stopPersistentListening e1 h))))
     = state (fst (stopPersistentListening e1 h))"
  by (simp add: stopPersistentListening_state)

lemma stopRecording_idle:
  assumes "\<not> recognitionRef h" "\<not> mediaRecorderRef h"
  shows "stopRecording e lc h
           = (h\<lparr>state := (state h)\<lparr>isRecording := False, isProcessing := False\<rparr>\<rparr>, [], None)"
  using assms by (simp add: stopRecording_def Let_def)

text \<open>
  Claim C8, as amended. \<open>stopPersistentListening\<close> with no persistent session (no
  recognizer, \<open>isPersistentMode\<close> and \<open>isListening\<close> false) leaves the state as it is
  except that it clears \<open>error\<close> (it does not touch \<open>isProcessing\<close>) and stops no
  recognizer; \<open>stopRecording\<close> with no one-shot session (no recognizer, no recorder,
  \<open>isRecording\<close> false) leaves the state as it is except that it clears
  \<open>isProcessing\<close>, makes no call and returns \<open>null\<close>. A second stop leaves the state
  as the first left it. Both are total: the only call that may throw on these paths is
  the recognizer's \<open>stop()\<close>, inside \<open>try\<close>.
\<close>

theorem stop_when_idle:
  "(\<not> persistentRecognitionRef h \<and> \<not> isPersistentMode (state h) \<and> \<not> isListening (state h)
      \<longrightarrow> state (fst (stopPersistentListening e h)) = (state h)\<lparr>error := None\<rparr>
          \<and> PersistentRecognitionStop \<notin> set (snd (stopPersistentListening e h)))
   \<and> (\<not> recognitionRef h \<and> \<not> mediaRecorderRef h \<and> \<not> isRecording (state h)
      \<longrightarrow> stopRecording e lc h = (h\<lparr>state := (state h)\<lparr>isProcessing := False\<rparr>\<rparr>, [], None))
   \<and> state (fst (stopPersistentListening e2 (fst (stopPersistentListening e h))))
       = state (fst (stopPersistentListening e h))
   \<and> (\<not> recognitionRef h \<and> \<not> mediaRecorderRef h
      \<longrightarrow> stopRecording e2 lc (fst (stopRecording e lc h)) = stopRecording e lc h)"
proof (intro conjI impI)
  assume a: "\<not> persistentRecognitionRef h \<and> \<not> isPersistentMode (state h) \<and> \<not> isListening (state h)"
  have "(state h)\<lparr>isListening := False, isPersistentMode := False, error := None\<rparr>
          = (state h)\<lparr>error := None\<rparr>"
    using a by simp
  then show "state (fst (stopPersistentListening e h)) = (state h)\<lparr>error := None\<rparr>"
    by (simp add: stopPersistentListening_state)
  show "PersistentRecognitionStop \<notin> set (snd (stopPersistentListening e h))"
    using a by (simp add: stopPersistentListening_idle split: option.splits)
next
  assume a: "\<not> recognitionRef h \<and> \<not> mediaRecorderRef h \<and> \<not> isRecording (state h)"
  have "(state h)\<lparr>isRecording := False, isProcessing := False\<rparr> = (state h)\<lparr>isProcessing := False\<rparr>"
    using a by simp
  then show "stopRecording e lc h = (h\<lparr>state := (state h)\<lparr>isProcessing := False\<rparr>\<rparr>, [], None)"
    using a by (simp add: stopRecording_idle)
next
  show "state (fst (stopPersistentListening e2 (fst (stopPersistentListening e h))))
       = state (fst (stopPersistentListening e h))"
    by (rule stopPersistentListening_twice)
next
  assume a: "\<not> recognitionRef h \<and> \<not> mediaRecorderRef h"
  then show "stopRecording e2 lc (fst (stopRecording e lc h)) = stopRecording e lc h"
    by (simp add: stopRecording_idle)
qed

theorem stop_when_idle_witness:
  "state (fst (stopPersistentListening webEnv initialHook)) = state initialHook
   \<and> stopRecording webEnv asciiLowerCase
        (initialHook\<lparr>state := (state initialHook)\<lparr>isProcessing := True\<rparr>\<rparr>)
      = (initialHook, [], None)
   \<and> stopRecording webEnv asciiLowerCase (fst (stopRecording webEnv asciiLowerCase initialHook))
      = stopRecording webEnv asciiLowerCase initialHook"
proof -
  let ?b = "initialHook\<lparr>state := (state initialHook)\<lparr>isProcessing := True\<rparr>\<rparr>"
  have i: "\<not> persistentRecognitionRef initialHook \<and> \<not> isPersistentMode (state initialHook)
           \<and> \<not> isListening (state initialHook)"
    by (simp add: initialHook_def)
  have j: "\<not> recognitionRef ?b \<and> \<not> mediaRecorderRef ?b \<and> \<not> isRecording (state ?b)"
    by (simp add: initialHook_def)
  have k: "\<not> recognitionRef initialHook \<and> \<not> mediaRecorderRef initialHook"
    by (simp add: initialHook_def)
  have "state (fst (stopPersistentListening webEnv initialHook)) = (state initialHook)\<lparr>error := None\<rparr>"
    using i stop_when_idle [of initialHook webEnv asciiLowerCase webEnv] by blast
  then have 1: "state (fst (stopPersistentListening webEnv initialHook)) = state initialHook"
    by (simp add: initialHook_def)
  have "stopRecording webEnv asciiLowerCase ?b = (?b\<lparr>state := (state ?b)\<lparr>isProcessing := False\<rparr>\<rparr>, [], None)"
    using j stop_when_idle [of ?b webEnv asciiLowerCase webEnv] by blast
  then have 2: "stopRecording webEnv asciiLowerCase ?b = (initialHook, [], None)"
    by (simp add: initialHook_def)
  have 3: "stopRecording webEnv asciiLowerCase (fst (stopRecording webEnv asciiLowerCase initialHook))
      = stopRecording webEnv asciiLowerCase initialHook"
    using k stop_when_idle [of initialHook webEnv asciiLowerCase webEnv] by blast
  from 1 2 3 show ?thesis by blast
qed

lemma unsupported_example:
  "fst (startPersistentListening webEnvNoRecognition initialHook)
     = initialHook\<lparr>state := (state initialHook)
         \<lparr>error := Some (u ''Speech Recognition not supported in this browser. Please use Chrome, Edge, or Safari.'')\<rparr>\<rparr>"
  by (simp add: startPersistentListening_def webEnvNoRecognition_def webEnv_def initialHook_def)

text \<open>
  The claim as stated fails: after a start in a browser without \<open>SpeechRecognition\<close>
  no session exists and an error is shown; \<open>stopPersistentListening\<close> clears that
  error, a change of the state other than to \<open>isProcessing\<close>.
\<close>

theorem stop_clears_error_counterexample:
  "\<not> persistentRecognitionRef (fst (startPersistentListening webEnvNoRecognition initialHook))
   \<and> \<not> isPersistentMode (state (fst (startPersistentListening webEnvNoRecognition initialHook)))
   \<and> \<not> isListening (state (fst (startPersistentListening webEnvNoRecognition initialHook)))
   \<and> error (state (fst (startPersistentListening webEnvNoRecognition initialHook)))
       = Some (u ''Speech Recognition not supported in this browser. Please use Chrome, Edge, or Safari.'')
   \<and> error (state (fst (stopPersistentListening webEnv
         (fst (startPersistentListening webEnvNoRecognition initialHook))))) = None"
  unfolding unsupported_example
  by (simp add: stopPersistentListening_state initialHook_def)

text \<open>
  Claim C2, as amended. While \<open>isPersistentMode\<close> (or \<open>isProcessing\<close>) is true the
  microphone button is disabled: a press leaves the state unchanged and makes no call,
  so no recognizer or recorder starts. \<open>toggleRecording\<close> itself does not read
  \<open>isPersistentMode\<close>: called while not recording it is \<open>startRecording\<close>.
\<close>

theorem disabled_button_refuses_recording:
  "(isPersistentMode (state h) \<or> isProcessing (state h)
      \<longrightarrow> pressVoiceButton e lc h = (h, [], None))
   \<and> (\<not> isPersistentMode (state h) \<and> \<not> isProcessing (state h)
      \<longrightarrow> pressVoiceButton e lc h = toggleRecording e lc h)
   \<and> (\<not> isRecording (state h) \<longrightarrow>
        toggleRecording e lc h = (fst (startRecording e h), snd (startRecording e h), None))"
  by (auto simp: pressVoiceButton_def toggleRecording_def split: prod.splits)

theorem disabled_button_refuses_recording_witness:
  "isPersistentMode (state (persistentOnStart (fst (startPersistentListening webEnv initialHook))))
   \<and> pressVoiceButton webEnv asciiLowerCase
        (persistentOnStart (fst (startPersistentListening webEnv initialHook)))
      = (persistentOnStart (fst (startPersistentListening webEnv initialHook)), [], None)"
proof -
  let ?l = "persistentOnStart (fst (startPersistentListening webEnv initialHook))"
  have p: "isPersistentMode (state ?l)" by (simp add: listening_example)
  then show ?thesis
    using disabled_button_refuses_recording [of ?l webEnv asciiLowerCase] by blast
qed

text \<open>
  The claim as stated fails: in a listening persistent session, a call of
  \<open>toggleRecording\<close> starts a one-shot recognizer and sets \<open>isRecording\<close>.
\<close>

theorem toggleRecording_in_persistent_mode_counterexample:
  "isPersistentMode (state (persistentOnStart (fst (startPersistentListening webEnv initialHook))))
   \<and> \<not> isRecording (state (persistentOnStart (fst (startPersistentListening webEnv initialHook))))
   \<and> toggleRecording webEnv asciiLowerCase
        (persistentOnStart (fst (startPersistentListening webEnv initialHook)))
      = (\<lparr>state = \<lparr>isRecording = True, isProcessing = False, lastCommand = None, error = None,
                   isListening = True, isPersistentMode = True\<rparr>,
          recognitionRef = True, mediaRecorderRef = False, persistentRecognitionRef = True,
          restartTimeoutRef = None, timers = [], nextTimer = 1\<rparr>,
         [RecognitionStart], None)"
  unfolding listening_example
  by (simp add: toggleRecording_def startRecording_def webEnv_def)

end
